theory Spec2Isabelle
  imports Complex_Main "HOL-Library.Word"
begin

unbundle bit_operations_syntax

section \<open>Python values\<close>

text \<open>
  A \<^verbatim>\<open>float\<close> is a double: a finite one is the rational number it is exactly (the sign
  of a zero is not kept), or it is an infinity or a NaN.
\<close>

datatype pyfl = Finite rat | PosInf | NegInf | NaN

text \<open>
  The decoder of \<^verbatim>\<open>choochoo/fit/profile/fields.py\<close> is dynamically typed: a profile
  cell, a field name, a unit, a decoded value are all plain Python objects. They are
  embedded in one datatype: \<^verbatim>\<open>None\<close>, an unbounded \<^verbatim>\<open>int\<close>, a \<^verbatim>\<open>float\<close>, a \<^verbatim>\<open>str\<close> of
  ASCII text, and a \<^verbatim>\<open>datetime\<close>, which a cell of the profile table can hold as well,
  given by the text that \<^verbatim>\<open>str\<close> prints for it (\<^verbatim>\<open>bool\<close> is left out).
\<close>

datatype pyval = VNone | VInt int | VFloat pyfl | VStr string | VDatetime string

datatype pyerr =
    ValueError | TypeError | OverflowError | ZeroDivisionError | IndexError
  | KeyError | AttributeError | RecursionError | MemoryError | Exception string

text \<open>
  What the interpreter computes in floating point, and the limits of the machine it runs
  on, are parameters of the embedding:
  \<^item> \<^verbatim>\<open>float(s)\<close> on text (\<open>None\<close> is its \<^verbatim>\<open>ValueError\<close>) and \<^verbatim>\<open>str(x)\<close> on a float;
  \<^item> \<^verbatim>\<open>float(i)\<close> on an int, the nearest double (\<open>None\<close> is its \<^verbatim>\<open>OverflowError\<close>);
  \<^item> \<^verbatim>\<open>i / j\<close> on ints with \<^verbatim>\<open>j\<close> not 0, the double nearest to the quotient (\<open>None\<close> is its
    \<^verbatim>\<open>OverflowError\<close>);
  \<^item> \<^verbatim>\<open>x / y\<close> on floats with \<^verbatim>\<open>y\<close> not 0, and \<^verbatim>\<open>x - y\<close> on floats, rounded;
  \<^item> the limit on the digits of an integer literal that \<^verbatim>\<open>int(s)\<close> reads (0 is no
    limit);
  \<^item> the exception, if any, with which \<^verbatim>\<open>1 << n\<close> fails for want of memory.
\<close>

record python =
  float_of_str :: "string \<Rightarrow> pyfl option"
  float_repr :: "pyfl \<Rightarrow> string"
  float_of_int :: "int \<Rightarrow> pyfl option"
  int_truediv :: "int \<Rightarrow> int \<Rightarrow> pyfl option"
  float_truediv :: "pyfl \<Rightarrow> pyfl \<Rightarrow> pyfl"
  float_sub :: "pyfl \<Rightarrow> pyfl \<Rightarrow> pyfl"
  max_str_digits :: nat
  lshift_error :: "int \<Rightarrow> pyerr option"

text \<open>Truth value of an object, as \<^verbatim>\<open>if x:\<close> tests it.\<close>

fun truthy :: "pyval \<Rightarrow> bool" where
  "truthy VNone = False"
| "truthy (VInt i) = (i \<noteq> 0)"
| "truthy (VFloat x) = (x \<noteq> Finite 0)"
| "truthy (VStr s) = (s \<noteq> [])"
| "truthy (VDatetime t) = True"

text \<open>
  Python's \<^verbatim>\<open>==\<close>: an int and a float are equal when they denote the same number, and a
  NaN equals nothing.
\<close>

fun py_eq :: "pyval \<Rightarrow> pyval \<Rightarrow> bool" where
  "py_eq (VInt i) (VFloat x) = (x = Finite (of_int i))"
| "py_eq (VFloat x) (VInt i) = (x = Finite (of_int i))"
| "py_eq (VFloat x) (VFloat y) = (x = y \<and> x \<noteq> NaN)"
| "py_eq a b = (a = b)"

subsection \<open>Text\<close>

text \<open>
  White space as \<^verbatim>\<open>str.strip\<close> sees it on ASCII (tab to carriage return, the four
  separators, space), and as \<^verbatim>\<open>int(s)\<close> skips it (tab to carriage return, space).
\<close>

definition is_space :: "char \<Rightarrow> bool" where
  "is_space c = (let n = of_char c :: nat in (9 \<le> n \<and> n \<le> 13) \<or> (28 \<le> n \<and> n \<le> 32))"

definition is_c_space :: "char \<Rightarrow> bool" where
  "is_c_space c = (let n = of_char c :: nat in (9 \<le> n \<and> n \<le> 13) \<or> n = 32)"

definition strip :: "string \<Rightarrow> string" where
  "strip s = rev (dropWhile is_space (rev (dropWhile is_space s)))"

definition strip_c :: "string \<Rightarrow> string" where
  "strip_c s = rev (dropWhile is_c_space (rev (dropWhile is_c_space s)))"

text \<open>\<^verbatim>\<open>s.split(sep)\<close> for a one-character separator: always at least one piece.\<close>

fun split_on :: "char \<Rightarrow> string \<Rightarrow> string list" where
  "split_on sep [] = [[]]"
| "split_on sep (c # cs) =
     (if c = sep then [] # split_on sep cs
      else (case split_on sep cs of [] \<Rightarrow> [[c]] | p # ps \<Rightarrow> (c # p) # ps))"

definition is_digit :: "char \<Rightarrow> bool" where
  "is_digit c = (let n = of_char c :: nat in 48 \<le> n \<and> n \<le> 57)"

definition digit_val :: "char \<Rightarrow> nat" where
  "digit_val c = of_char c - 48"

text \<open>
  The digits of an integer literal as \<^verbatim>\<open>int(s)\<close> reads them: groups of decimal digits
  joined by single underscores, no more digits than the limit allows.
\<close>

definition int_digits :: "python \<Rightarrow> string \<Rightarrow> nat option" where
  "int_digits py s =
     (let groups = split_on CHR ''_'' s in
      if list_all (\<lambda>g. g \<noteq> [] \<and> list_all is_digit g) groups \<and>
         (max_str_digits py = 0 \<or> length (concat groups) \<le> max_str_digits py)
      then Some (foldl (\<lambda>n c. 10 * n + digit_val c) 0 (concat groups))
      else None)"

text \<open>\<^verbatim>\<open>int(s)\<close> on text: surrounding white space, an optional sign, the digits.\<close>

definition int_of_str :: "python \<Rightarrow> string \<Rightarrow> pyerr + int" where
  "int_of_str py s =
     (case strip_c s of
        [] \<Rightarrow> Inl ValueError
      | c # cs \<Rightarrow>
          (case (if c = CHR ''-'' then map_option (\<lambda>n. - int n) (int_digits py cs)
                 else if c = CHR ''+'' then map_option int (int_digits py cs)
                 else map_option int (int_digits py (c # cs))) of
             None \<Rightarrow> Inl ValueError
           | Some i \<Rightarrow> Inr i))"

text \<open>
  \<^verbatim>\<open>int(x)\<close>: a finite float is truncated towards zero, an infinity is an
  \<^verbatim>\<open>OverflowError\<close>, a NaN a \<^verbatim>\<open>ValueError\<close>; \<^verbatim>\<open>None\<close> and a \<^verbatim>\<open>datetime\<close> are type errors.
\<close>

fun py_int :: "python \<Rightarrow> pyval \<Rightarrow> pyerr + int" where
  "py_int py VNone = Inl TypeError"
| "py_int py (VInt i) = Inr i"
| "py_int py (VFloat (Finite r)) = Inr (if 0 \<le> r then \<lfloor>r\<rfloor> else \<lceil>r\<rceil>)"
| "py_int py (VFloat PosInf) = Inl OverflowError"
| "py_int py (VFloat NegInf) = Inl OverflowError"
| "py_int py (VFloat NaN) = Inl ValueError"
| "py_int py (VStr s) = int_of_str py s"
| "py_int py (VDatetime t) = Inl TypeError"

text \<open>\<^verbatim>\<open>float(x)\<close>.\<close>

fun py_float :: "python \<Rightarrow> pyval \<Rightarrow> pyerr + pyfl" where
  "py_float py VNone = Inl TypeError"
| "py_float py (VInt i) = (case float_of_int py i of None \<Rightarrow> Inl OverflowError | Some x \<Rightarrow> Inr x)"
| "py_float py (VFloat x) = Inr x"
| "py_float py (VStr s) = (case float_of_str py s of None \<Rightarrow> Inl ValueError | Some x \<Rightarrow> Inr x)"
| "py_float py (VDatetime t) = Inl TypeError"

fun str_nat :: "nat \<Rightarrow> string" where
  "str_nat n =
     (if n < 10 then [char_of (48 + n)] else str_nat (n div 10) @ [char_of (48 + n mod 10)])"

declare str_nat.simps [simp del]

text \<open>\<^verbatim>\<open>str(x)\<close>.\<close>

fun py_str :: "python \<Rightarrow> pyval \<Rightarrow> string" where
  "py_str py VNone = ''None''"
| "py_str py (VInt i) = (if i < 0 then CHR ''-'' # str_nat (nat (- i)) else str_nat (nat i))"
| "py_str py (VFloat x) = float_repr py x"
| "py_str py (VStr s) = s"
| "py_str py (VDatetime t) = t"

section \<open>Row\<close>

text \<open>
  One line of the profile table: the sixteen columns of the named tuple. A blank line
  of the table is \<open>None\<close> where rows are listed.
\<close>

record Row =
  msg_name :: pyval
  field_no :: pyval
  field_name :: pyval
  field_type :: pyval
  array :: pyval
  components :: pyval
  scale :: pyval
  offset :: pyval
  units :: pyval
  bits :: pyval
  accumulate :: pyval
  ref_name :: pyval
  ref_value :: pyval
  comment :: pyval
  products :: pyval
  example :: pyval

text \<open>The messages handed to \<^verbatim>\<open>log.warn\<close>; the log is the list of them, oldest first.\<close>

datatype warning = CannotParseSingleInt pyval | CouldNotResolve pyval

text \<open>
  \<^verbatim>\<open>Row.single_int\<close>. Only \<^verbatim>\<open>ValueError\<close> is caught; any other exception of \<^verbatim>\<open>int\<close>
  leaves the method.
\<close>

definition single_int :: "python \<Rightarrow> warning list \<Rightarrow> pyval \<Rightarrow> warning list \<times> (pyerr + pyval)" where
  "single_int py lg v =
     (if v = VNone then (lg, Inr VNone)
      else (case py_int py v of
              Inr i \<Rightarrow> (lg, Inr (VInt i))
            | Inl e \<Rightarrow>
                if e = ValueError then (lg @ [CannotParseSingleInt v], Inr VNone)
                else (lg, Inl e)))"

section \<open>Zip\<close>

text \<open>
  \<^verbatim>\<open>Zip.__split\<close> is a generator: the stripped comma-separated pieces of a truthy
  field, or a single \<^verbatim>\<open>None\<close>; with \<^verbatim>\<open>extend\<close> it then yields \<^verbatim>\<open>None\<close> for ever. It is
  embedded as the finite part together with the flag for the endless tail.
\<close>

definition Zip_split :: "python \<Rightarrow> pyval \<Rightarrow> bool \<Rightarrow> pyval list \<times> bool" where
  "Zip_split py field ext =
     (if truthy field then map (\<lambda>v. VStr (strip v)) (split_on CHR '','' (py_str py field))
      else [VNone],
      ext)"

text \<open>The item a generator yields at a position (it must not be exhausted there).\<close>

definition gen_item :: "pyval list \<times> bool \<Rightarrow> nat \<Rightarrow> pyval" where
  "gen_item g i = (if i < length (fst g) then fst g ! i else VNone)"

fun shortest :: "nat list \<Rightarrow> nat" where
  "shortest [] = 0"
| "shortest [n] = n"
| "shortest (n # ns) = min n (shortest ns)"

text \<open>
  The builtin \<^verbatim>\<open>zip\<close> stops with the first exhausted argument: the number of tuples is
  the length of the shortest finite argument (none for no argument at all).
\<close>

definition zip_len :: "(pyval list \<times> bool) list \<Rightarrow> nat" where
  "zip_len gens = shortest (map (\<lambda>g. length (fst g)) (filter (\<lambda>g. \<not> snd g) gens))"

text \<open>
  \<^verbatim>\<open>Zip._zip\<close>: field number \<open>n\<close> (from 0) is split with \<^verbatim>\<open>extend = n > 1\<close>. Each tuple
  is the list of its items.
\<close>

definition Zip_zip :: "python \<Rightarrow> pyval list \<Rightarrow> pyval list list" where
  "Zip_zip py flds =
     (let gens = map (\<lambda>(n, field). Zip_split py field (n > 1)) (enumerate 0 flds)
      in map (\<lambda>i. map (\<lambda>g. gen_item g i) gens) [0..<zip_len gens])"

section \<open>Collaborators\<close>

type_synonym byte = "8 word"
type_synonym bytes = "byte list"

text \<open>
  Modelled from the spec: the type registry is not part of these sources. A decode type
  offers \<^verbatim>\<open>parse(data, count, endian)\<close>, which gives the decoded values or \<^verbatim>\<open>None\<close>
  (absent), and its \<^verbatim>\<open>size\<close> in bytes; \<^verbatim>\<open>types.profile_to_type\<close> resolves a type tag.
\<close>

record ftype =
  type_parse :: "bytes \<Rightarrow> int \<Rightarrow> int \<Rightarrow> pyval list option"
  type_size :: nat

type_synonym types = "pyval \<Rightarrow> pyerr + ftype"

text \<open>An output entry \<^verbatim>\<open>(name, (values, units))\<close>; absent values are \<open>None\<close>.\<close>

type_synonym entry = "pyval \<times> (pyval list option \<times> pyval)"

text \<open>
  The references map of one message: field name to its decoded \<^verbatim>\<open>(values, units)\<close>.
  It is read, never written, by the fields.
\<close>

type_synonym refs = "pyval \<rightharpoonup> (pyval list option \<times> pyval)"

text \<open>
  What a decode can change: the log, and the state of the accumulator (of any type
  \<open>'a\<close>).
\<close>

record 'a world =
  warned :: "warning list"
  acc :: 'a

text \<open>
  Every \<^verbatim>\<open>parse\<close> is a generator. Run to its end from a world it gives the entries it
  yielded, the exception that ended it (if any) and the world it leaves.
\<close>

type_synonym 'a gen = "'a world \<Rightarrow> entry list \<times> pyerr option \<times> 'a world"

definition raise :: "pyerr \<Rightarrow> 'a gen" where
  "raise e w = ([], Some e, w)"

text \<open>Running one generator after another, as consecutive \<^verbatim>\<open>yield from\<close> do.\<close>

definition and_then :: "'a gen \<Rightarrow> 'a gen \<Rightarrow> 'a gen" where
  "and_then g h w =
     (case g w of
        (ys, Some e, w') \<Rightarrow> (ys, Some e, w')
      | (ys, None, w') \<Rightarrow> (case h w' of (zs, r, w'') \<Rightarrow> (ys @ zs, r, w'')))"

section \<open>ScaledField\<close>

record ScaledField =
  name :: pyval
  f_units :: pyval
  f_scale :: pyval
  f_offset :: pyval
  is_scaled :: bool
  is_accumulate :: pyval

text \<open>
  Modelled from the spec: the accumulator is not part of these sources. It is called as
  \<^verbatim>\<open>accumulate(field, values)\<close>, returns the adjusted values and keeps its own state.
\<close>

type_synonym 'a accumulate = "ScaledField \<Rightarrow> pyval list \<Rightarrow> 'a \<Rightarrow> pyval list \<times> 'a"

definition ScaledField_init :: "pyval \<Rightarrow> pyval \<Rightarrow> pyval \<Rightarrow> pyval \<Rightarrow> pyval \<Rightarrow> ScaledField" where
  "ScaledField_init nm un sc off accum =
     (let sc' = (if sc = VNone then VInt 1 else sc);
          off' = (if off = VNone then VInt 0 else off)
      in \<lparr>name = nm, f_units = un, f_scale = sc', f_offset = off',
          is_scaled = (\<not> py_eq sc' (VInt 1) \<or> \<not> py_eq off' (VInt 0)),
          is_accumulate = accum\<rparr>)"

text \<open>
  \<^verbatim>\<open>x / y\<close> on floats: a zero divisor is a \<^verbatim>\<open>ZeroDivisionError\<close>.
\<close>

definition float_div :: "python \<Rightarrow> pyfl \<Rightarrow> pyfl \<Rightarrow> pyerr + pyval" where
  "float_div py x y =
     (if y = Finite 0 then Inl ZeroDivisionError else Inr (VFloat (float_truediv py x y)))"

text \<open>
  \<^verbatim>\<open>a / b\<close>: true division, always a float. On two ints the quotient is rounded once;
  otherwise an int operand is converted to a float first. Operands that are not numbers
  are a \<^verbatim>\<open>TypeError\<close>.
\<close>

fun py_truediv :: "python \<Rightarrow> pyval \<Rightarrow> pyval \<Rightarrow> pyerr + pyval" where
  "py_truediv py (VInt i) (VInt j) =
     (if j = 0 then Inl ZeroDivisionError
      else (case int_truediv py i j of None \<Rightarrow> Inl OverflowError | Some q \<Rightarrow> Inr (VFloat q)))"
| "py_truediv py (VInt i) (VFloat y) =
     (case float_of_int py i of None \<Rightarrow> Inl OverflowError | Some x \<Rightarrow> float_div py x y)"
| "py_truediv py (VFloat x) (VInt j) =
     (case float_of_int py j of None \<Rightarrow> Inl OverflowError | Some y \<Rightarrow> float_div py x y)"
| "py_truediv py (VFloat x) (VFloat y) = float_div py x y"
| "py_truediv py a b = Inl TypeError"

text \<open>\<^verbatim>\<open>a - b\<close>: an int when both are, a float otherwise.\<close>

fun py_sub :: "python \<Rightarrow> pyval \<Rightarrow> pyval \<Rightarrow> pyerr + pyval" where
  "py_sub py (VInt i) (VInt j) = Inr (VInt (i - j))"
| "py_sub py (VInt i) (VFloat y) =
     (case float_of_int py i of
        None \<Rightarrow> Inl OverflowError
      | Some x \<Rightarrow> Inr (VFloat (float_sub py x y)))"
| "py_sub py (VFloat x) (VInt j) =
     (case float_of_int py j of
        None \<Rightarrow> Inl OverflowError
      | Some y \<Rightarrow> Inr (VFloat (float_sub py x y)))"
| "py_sub py (VFloat x) (VFloat y) = Inr (VFloat (float_sub py x y))"
| "py_sub py a b = Inl TypeError"

text \<open>\<^verbatim>\<open>value / self._scale - self._offset\<close>\<close>

definition scale_value :: "python \<Rightarrow> ScaledField \<Rightarrow> pyval \<Rightarrow> pyerr + pyval" where
  "scale_value py f v =
     (case py_truediv py v (f_scale f) of Inl e \<Rightarrow> Inl e | Inr q \<Rightarrow> py_sub py q (f_offset f))"

text \<open>Building a tuple from a generator expression: the first exception ends it.\<close>

fun collect :: "(pyerr + 'b) list \<Rightarrow> pyerr + 'b list" where
  "collect [] = Inr []"
| "collect (Inl e # xs) = Inl e"
| "collect (Inr x # xs) = (case collect xs of Inl e \<Rightarrow> Inl e | Inr ys \<Rightarrow> Inr (x # ys))"

text \<open>
  \<^verbatim>\<open>ScaledField._parse_and_scale\<close>. The \<^verbatim>\<open>yield\<close> stands after the test for absent
  values, not under it. (The \<^verbatim>\<open>print\<close> of the scaled branch writes to the standard
  output only and is left out.)
\<close>

definition parse_and_scale ::
  "python \<Rightarrow> ScaledField \<Rightarrow> ftype \<Rightarrow> bytes \<Rightarrow> int \<Rightarrow> int \<Rightarrow> 'a accumulate \<Rightarrow> 'a gen" where
  "parse_and_scale py f ty data count endian accum w =
     (case type_parse ty data count endian of
        None \<Rightarrow> ([(name f, (None, f_units f))], None, w)
      | Some vals \<Rightarrow>
          (case (if is_scaled f then collect (map (scale_value py f) vals) else Inr vals) of
             Inl e \<Rightarrow> ([], Some e, w)
           | Inr vals' \<Rightarrow>
               if truthy (is_accumulate f)
               then (case accum f vals' (acc w) of
                       (vals'', a') \<Rightarrow> ([(name f, (Some vals'', f_units f))], None, w\<lparr>acc := a'\<rparr>))
               else ([(name f, (Some vals', f_units f))], None, w)))"

section \<open>TypedField and RowField\<close>

text \<open>The inherited \<^verbatim>\<open>ScaledField\<close> part of the object is the component \<open>scaled\<close>.\<close>

record TypedField =
  scaled :: ScaledField
  number :: pyval
  ftype :: ftype

definition TypedField_init ::
  "pyval \<Rightarrow> pyval \<Rightarrow> pyval \<Rightarrow> pyval \<Rightarrow> pyval \<Rightarrow> pyval \<Rightarrow> pyval \<Rightarrow> types \<Rightarrow> pyerr + TypedField" where
  "TypedField_init nm no un sc off accum tag tys =
     (case tys tag of
        Inl e \<Rightarrow> Inl e
      | Inr ty \<Rightarrow> Inr \<lparr>scaled = ScaledField_init nm un sc off accum, number = no, ftype = ty\<rparr>)"

definition TypedField_parse ::
  "python \<Rightarrow> TypedField \<Rightarrow> bytes \<Rightarrow> int \<Rightarrow> int \<Rightarrow> 'a accumulate \<Rightarrow> 'a gen" where
  "TypedField_parse py t data count endian accum =
     parse_and_scale py (scaled t) (ftype t) data count endian accum"

text \<open>
  \<^verbatim>\<open>RowField.__init__\<close>: the four \<^verbatim>\<open>single_int\<close> calls are evaluated from left to
  right, each on the log the one before left.
\<close>

definition RowField_init ::
  "python \<Rightarrow> warning list \<Rightarrow> Row \<Rightarrow> types \<Rightarrow> warning list \<times> (pyerr + TypedField)" where
  "RowField_init py lg row tys =
     (case single_int py lg (field_no row) of
        (lg1, Inl e) \<Rightarrow> (lg1, Inl e)
      | (lg1, Inr no) \<Rightarrow>
     (case single_int py lg1 (scale row) of
        (lg2, Inl e) \<Rightarrow> (lg2, Inl e)
      | (lg2, Inr sc) \<Rightarrow>
     (case single_int py lg2 (offset row) of
        (lg3, Inl e) \<Rightarrow> (lg3, Inl e)
      | (lg3, Inr off) \<Rightarrow>
     (case single_int py lg3 (accumulate row) of
        (lg4, Inl e) \<Rightarrow> (lg4, Inl e)
      | (lg4, Inr accum) \<Rightarrow>
          (lg4, TypedField_init (field_name row) no (units row) sc off accum (field_type row) tys)))))"

section \<open>The fields of a message\<close>

text \<open>
  \<^verbatim>\<open>CompositeField\<close>: its name, its number and the \<^verbatim>\<open>(bits, DelegateField)\<close> pairs in
  declaration order. A \<^verbatim>\<open>DelegateField\<close> adds no attribute to \<^verbatim>\<open>ScaledField\<close>.
\<close>

record CompositeField =
  c_name :: pyval
  c_number :: pyval
  c_components :: "(int \<times> ScaledField) list"

text \<open>
  \<^verbatim>\<open>DynamicField\<close>: a \<^verbatim>\<open>RowField\<close> (the component \<open>typed\<close>) with the resolution table, a
  dictionary kept as its items in insertion order, and \<^verbatim>\<open>references\<close>. That attribute is
  a Python \<^verbatim>\<open>set\<close>: its iterator follows the hashes of the names, not the order of
  insertion, so it is kept as the list of its elements in the order the iterator gives.
\<close>

record DynamicField =
  typed :: TypedField
  dynamic_lookup :: "((pyval \<times> pyval) \<times> pyval) list"
  references :: "pyval list"

text \<open>
  The classes of this module a message can hold. \<^verbatim>\<open>RowField\<close> extends \<^verbatim>\<open>TypedField\<close>
  and \<^verbatim>\<open>DynamicField\<close> extends \<^verbatim>\<open>RowField\<close>.
\<close>

datatype field =
    is_FTyped: FTyped TypedField
  | is_FRow: FRow TypedField
  | is_FDynamic: FDynamic DynamicField
  | is_FComposite: FComposite CompositeField

text \<open>
  Modelled from the spec: the message context is not part of these sources. Its
  \<^verbatim>\<open>profile_to_field(name)\<close> gives the field of that name in the message, or raises.
\<close>

type_synonym message = "pyval \<Rightarrow> pyerr + field"

text \<open>The signature of \<^verbatim>\<open>field.parse\<close>, with the receiver first.\<close>

type_synonym 'a parser =
  "field \<Rightarrow> bytes \<Rightarrow> int \<Rightarrow> int \<Rightarrow> refs \<Rightarrow> 'a accumulate \<Rightarrow> message \<Rightarrow> 'a gen"

text \<open>\<^verbatim>\<open>isinstance(delegate, RowField)\<close>, with the object seen as a \<^verbatim>\<open>RowField\<close>.\<close>

fun as_RowField :: "field \<Rightarrow> TypedField option" where
  "as_RowField (FRow t) = Some t"
| "as_RowField (FDynamic d) = Some (typed d)"
| "as_RowField (FTyped t) = None"
| "as_RowField (FComposite c) = None"

text \<open>The attribute \<^verbatim>\<open>type\<close> of a field; a \<^verbatim>\<open>CompositeField\<close> has none.\<close>

fun field_type_attr :: "field \<Rightarrow> pyerr + ftype" where
  "field_type_attr (FTyped t) = Inr (ftype t)"
| "field_type_attr (FRow t) = Inr (ftype t)"
| "field_type_attr (FDynamic d) = Inr (ftype (typed d))"
| "field_type_attr (FComposite c) = Inl AttributeError"

section \<open>DelegateField\<close>

text \<open>
  \<^verbatim>\<open>DelegateField.parse\<close>. The call \<^verbatim>\<open>delegate.parse(...)\<close> is dispatched on the class of
  the delegate: \<open>parse\<close> stands for that dispatch.
\<close>

definition DelegateField_parse ::
  "python \<Rightarrow> 'a parser \<Rightarrow> ScaledField \<Rightarrow> bytes \<Rightarrow> int \<Rightarrow> int \<Rightarrow> refs \<Rightarrow> 'a accumulate \<Rightarrow> message \<Rightarrow> 'a gen" where
  "DelegateField_parse py parse f data count endian rfs accum msg =
     (case msg (name f) of
        Inl e \<Rightarrow> raise e
      | Inr delegate \<Rightarrow>
          (case as_RowField delegate of
             Some row \<Rightarrow> parse_and_scale py f (ftype row) data count endian accum
           | None \<Rightarrow>
               if is_scaled f then raise (Exception ''Scaled component is not a simple field'')
               else parse delegate data count endian rfs accum msg))"

definition DelegateField_size :: "ScaledField \<Rightarrow> message \<Rightarrow> pyerr + nat" where
  "DelegateField_size f msg =
     (case msg (name f) of
        Inl e \<Rightarrow> Inl e
      | Inr delegate \<Rightarrow>
          (case field_type_attr delegate of Inl e \<Rightarrow> Inl e | Inr ty \<Rightarrow> Inr (type_size ty)))"

section \<open>CompositeField\<close>

text \<open>
  One round of the loop of \<^verbatim>\<open>CompositeField.__init__\<close>: a tuple of the six split
  columns becomes a \<^verbatim>\<open>(bits, DelegateField)\<close> pair.
\<close>

definition component_of :: "python \<Rightarrow> pyval list \<Rightarrow> pyerr + (int \<times> ScaledField)" where
  "component_of py t =
     (case t of
        [nm, bts, un, sc, off, accum] \<Rightarrow>
          (case py_int py bts of
             Inl e \<Rightarrow> Inl e
           | Inr nbits \<Rightarrow>
          (case (if sc = VNone then Inr VNone else map_sum id VFloat (py_float py sc)) of
             Inl e \<Rightarrow> Inl e
           | Inr sc' \<Rightarrow>
          (case (if off = VNone then Inr VNone else map_sum id VFloat (py_float py off)) of
             Inl e \<Rightarrow> Inl e
           | Inr off' \<Rightarrow> Inr (nbits, ScaledField_init nm un sc' off' accum))))
      | _ \<Rightarrow> Inl ValueError)"

definition CompositeField_init ::
  "python \<Rightarrow> warning list \<Rightarrow> Row \<Rightarrow> warning list \<times> (pyerr + CompositeField)" where
  "CompositeField_init py lg row =
     (case single_int py lg (field_no row) of
        (lg1, Inl e) \<Rightarrow> (lg1, Inl e)
      | (lg1, Inr no) \<Rightarrow>
          (case collect (map (component_of py)
                  (Zip_zip py [components row, bits row, units row, scale row, offset row,
                               accumulate row])) of
             Inl e \<Rightarrow> (lg1, Inl e)
           | Inr comps \<Rightarrow>
               (lg1, Inr \<lparr>c_name = field_name row, c_number = no, c_components = comps\<rparr>)))"

datatype byteorder = Little | Big

text \<open>\<^verbatim>\<open>['little', 'big'][endian]\<close>, a negative index counting from the end.\<close>

definition byteorder_of :: "int \<Rightarrow> pyerr + byteorder" where
  "byteorder_of endian =
     (if endian = 0 \<or> endian = - 2 then Inr Little
      else if endian = 1 \<or> endian = - 1 then Inr Big
      else Inl IndexError)"

text \<open>\<^verbatim>\<open>int.from_bytes(data, byteorder=...)\<close>, unsigned.\<close>

fun from_bytes_little :: "bytes \<Rightarrow> int" where
  "from_bytes_little [] = 0"
| "from_bytes_little (b # bs) = uint b + 256 * from_bytes_little bs"

definition from_bytes :: "bytes \<Rightarrow> byteorder \<Rightarrow> int" where
  "from_bytes data order =
     (case order of Little \<Rightarrow> from_bytes_little data | Big \<Rightarrow> from_bytes_little (rev data))"

text \<open>
  \<^verbatim>\<open>v.to_bytes(n, byteorder=...)\<close>, unsigned: a negative length is a \<^verbatim>\<open>ValueError\<close>, a
  value that is negative or does not fit is an \<^verbatim>\<open>OverflowError\<close>.
\<close>

definition to_bytes :: "int \<Rightarrow> int \<Rightarrow> byteorder \<Rightarrow> pyerr + bytes" where
  "to_bytes v n order =
     (if n < 0 then Inl ValueError
      else if v < 0 \<or> 256 ^ nat n \<le> v then Inl OverflowError
      else (let little = map (\<lambda>k. word_of_int (v div 256 ^ k)) [0..<nat n]
            in Inr (case order of Little \<Rightarrow> little | Big \<Rightarrow> rev little)))"

text \<open>
  \<^verbatim>\<open>1 << n\<close> on unbounded integers: a negative count is a \<^verbatim>\<open>ValueError\<close>, and the
  result must fit the memory of the machine. \<^verbatim>\<open>a >> n\<close> needs no more memory than \<^verbatim>\<open>a\<close>.
\<close>

definition py_lshift_one :: "python \<Rightarrow> int \<Rightarrow> pyerr + int" where
  "py_lshift_one py n =
     (if n < 0 then Inl ValueError
      else (case lshift_error py n of Some e \<Rightarrow> Inl e | None \<Rightarrow> Inr (push_bit (nat n) 1)))"

definition py_rshift :: "int \<Rightarrow> int \<Rightarrow> pyerr + int" where
  "py_rshift a n = (if n < 0 then Inl ValueError else Inr (drop_bit (nat n) a))"

text \<open>
  The loop of \<^verbatim>\<open>CompositeField.parse\<close> over the components, from the running integer
  \<open>bts\<close>. The mask is computed as the source computes it, \<^verbatim>\<open>(1 << bits) - 1\<close>, from the
  running integer.
\<close>

fun CompositeField_loop ::
  "python \<Rightarrow> 'a parser \<Rightarrow> byteorder \<Rightarrow> int \<Rightarrow> refs \<Rightarrow> 'a accumulate \<Rightarrow> message \<Rightarrow>
   (int \<times> ScaledField) list \<Rightarrow> int \<Rightarrow> 'a gen" where
  "CompositeField_loop py parse order endian rfs accum msg [] bts = (\<lambda>w. ([], None, w))"
| "CompositeField_loop py parse order endian rfs accum msg ((nbits, f) # rest) bts =
     (case DelegateField_size f msg of
        Inl e \<Rightarrow> raise e
      | Inr sz \<Rightarrow>
     (case py_lshift_one py bts of
        Inl e \<Rightarrow> raise e
      | Inr m \<Rightarrow>
     (case to_bytes (bts AND (m - 1)) (max ((nbits + 7) div 8) (int sz)) order of
        Inl e \<Rightarrow> raise e
      | Inr data \<Rightarrow>
     (case py_rshift bts nbits of
        Inl e \<Rightarrow> raise e
      | Inr bts' \<Rightarrow>
          and_then (DelegateField_parse py parse f data 1 endian rfs accum msg)
                   (CompositeField_loop py parse order endian rfs accum msg rest bts')))))"

definition CompositeField_parse ::
  "python \<Rightarrow> 'a parser \<Rightarrow> CompositeField \<Rightarrow> bytes \<Rightarrow> int \<Rightarrow> int \<Rightarrow> refs \<Rightarrow> 'a accumulate \<Rightarrow> message \<Rightarrow> 'a gen" where
  "CompositeField_parse py parse c data count endian rfs accum msg =
     (case byteorder_of endian of
        Inl e \<Rightarrow> raise e
      | Inr order \<Rightarrow>
          CompositeField_loop py parse order endian rfs accum msg (c_components c)
            (from_bytes data order))"

section \<open>DynamicField\<close>

text \<open>
  Modelled from the spec: the cursor \<^verbatim>\<open>rows\<close> over the profile table is not part of
  these sources. It is embedded as the list of the rows that follow the current one
  (\<open>None\<close> is a blank line): \<^verbatim>\<open>peek\<close> gives the next row without consuming it, nothing
  at the end of the table, and \<^verbatim>\<open>lookahead\<close> runs over the following rows without
  consuming them.
\<close>

definition rows_peek :: "Row option list \<Rightarrow> Row option" where
  "rows_peek rows = (case rows of [] \<Rightarrow> None | r # rest \<Rightarrow> r)"

definition rows_lookahead :: "Row option list \<Rightarrow> Row option list" where
  "rows_lookahead rows = rows"

text \<open>
  A dictionary keyed by \<^verbatim>\<open>(name, value)\<close> tuples: keys are compared with \<^verbatim>\<open>==\<close>, and a
  stored key keeps its place when its value is replaced.
\<close>

definition key_eq :: "pyval \<times> pyval \<Rightarrow> pyval \<times> pyval \<Rightarrow> bool" where
  "key_eq k k' = (py_eq (fst k) (fst k') \<and> py_eq (snd k) (snd k'))"

fun dict_get :: "((pyval \<times> pyval) \<times> 'v) list \<Rightarrow> pyval \<times> pyval \<Rightarrow> 'v option" where
  "dict_get [] k = None"
| "dict_get ((k', v) # kvs) k = (if key_eq k' k then Some v else dict_get kvs k)"

fun dict_set ::
  "((pyval \<times> pyval) \<times> 'v) list \<Rightarrow> pyval \<times> pyval \<Rightarrow> 'v \<Rightarrow> ((pyval \<times> pyval) \<times> 'v) list" where
  "dict_set [] k v = [(k, v)]"
| "dict_set ((k', v') # kvs) k v =
     (if key_eq k' k then (k', v) # kvs else (k', v') # dict_set kvs k v)"

text \<open>\<^verbatim>\<open>s.add(x)\<close>, on the elements listed in the order of their first insertion.\<close>

definition set_add :: "pyval list \<Rightarrow> pyval \<Rightarrow> pyval list" where
  "set_add xs x = (if list_ex (py_eq x) xs then xs else xs @ [x])"

text \<open>The body of the inner loop of \<^verbatim>\<open>DynamicField.__init__\<close> for one tuple.\<close>

definition register ::
  "pyval \<Rightarrow> ((pyval \<times> pyval) \<times> pyval) list \<times> pyval list \<Rightarrow> pyval list \<Rightarrow>
   ((pyval \<times> pyval) \<times> pyval) list \<times> pyval list" where
  "register fname st t =
     (case t of
        [nm, v] \<Rightarrow> (dict_set (fst st) (nm, v) fname, set_add (snd st) nm)
      | _ \<Rightarrow> st)"

text \<open>The outer loop, over the rows of the lookahead, up to its \<^verbatim>\<open>break\<close>.\<close>

fun lookahead_loop ::
  "python \<Rightarrow> Row option list \<Rightarrow> ((pyval \<times> pyval) \<times> pyval) list \<times> pyval list \<Rightarrow>
   ((pyval \<times> pyval) \<times> pyval) list \<times> pyval list" where
  "lookahead_loop py [] st = st"
| "lookahead_loop py (r # rs) st =
     (case r of
        None \<Rightarrow> st
      | Some row \<Rightarrow>
          if truthy (field_name row) \<and> field_no row = VNone
          then lookahead_loop py rs
                 (foldl (register (field_name row)) st (Zip_zip py [ref_name row, ref_value row]))
          else st)"

text \<open>
  \<^verbatim>\<open>DynamicField.__init__\<close>. \<open>iter_order\<close> is the order in which the set built by the
  insertions is iterated: a parameter, since the hashes of the names decide it.
\<close>

definition DynamicField_init ::
  "python \<Rightarrow> (pyval list \<Rightarrow> pyval list) \<Rightarrow> warning list \<Rightarrow> Row \<Rightarrow> Row option list \<Rightarrow> types \<Rightarrow>
   warning list \<times> (pyerr + DynamicField)" where
  "DynamicField_init py iter_order lg row rows tys =
     (case RowField_init py lg row tys of
        (lg', Inl e) \<Rightarrow> (lg', Inl e)
      | (lg', Inr t) \<Rightarrow>
          (case lookahead_loop py (rows_lookahead rows) ([], []) of
             (tbl, names) \<Rightarrow>
               (lg', Inr \<lparr>typed = t, dynamic_lookup = tbl, references = iter_order names\<rparr>)))"

text \<open>
  The loop of \<^verbatim>\<open>DynamicField.parse\<close> over the tracked names, and after it the warning
  and the inherited \<^verbatim>\<open>parse\<close>. \<^verbatim>\<open>references[name][0][0]\<close> raises when the values are
  absent or empty.
\<close>

fun DynamicField_loop ::
  "python \<Rightarrow> 'a parser \<Rightarrow> DynamicField \<Rightarrow> bytes \<Rightarrow> int \<Rightarrow> int \<Rightarrow> refs \<Rightarrow> 'a accumulate \<Rightarrow> message \<Rightarrow>
   pyval list \<Rightarrow> 'a gen" where
  "DynamicField_loop py parse d data count endian rfs accum msg [] =
     (\<lambda>w. TypedField_parse py (typed d) data count endian accum
            (w\<lparr>warned := warned w @ [CouldNotResolve (name (scaled (typed d)))]\<rparr>))"
| "DynamicField_loop py parse d data count endian rfs accum msg (nm # rest) =
     (case rfs nm of
        None \<Rightarrow> DynamicField_loop py parse d data count endian rfs accum msg rest
      | Some (vals, un) \<Rightarrow>
          (case vals of
             None \<Rightarrow> raise TypeError
           | Some [] \<Rightarrow> raise IndexError
           | Some (v # vs) \<Rightarrow>
               (case dict_get (dynamic_lookup d) (nm, v) of
                  None \<Rightarrow> DynamicField_loop py parse d data count endian rfs accum msg rest
                | Some fname \<Rightarrow>
                    (case msg fname of
                       Inl e \<Rightarrow> raise e
                     | Inr f \<Rightarrow> parse f data count endian rfs accum msg))))"

definition DynamicField_parse ::
  "python \<Rightarrow> 'a parser \<Rightarrow> DynamicField \<Rightarrow> bytes \<Rightarrow> int \<Rightarrow> int \<Rightarrow> refs \<Rightarrow> 'a accumulate \<Rightarrow> message \<Rightarrow> 'a gen" where
  "DynamicField_parse py parse d data count endian rfs accum msg =
     DynamicField_loop py parse d data count endian rfs accum msg (references d)"

section \<open>The field factory\<close>

definition MessageField ::
  "python \<Rightarrow> (pyval list \<Rightarrow> pyval list) \<Rightarrow> warning list \<Rightarrow> Row \<Rightarrow> Row option list \<Rightarrow> types \<Rightarrow>
   warning list \<times> (pyerr + field)" where
  "MessageField py iter_order lg row rows tys =
     (if truthy (components row)
      then (case CompositeField_init py lg row of (lg', r) \<Rightarrow> (lg', map_sum id FComposite r))
      else (case rows_peek rows of
              None \<Rightarrow>
                (case RowField_init py lg row tys of (lg', r) \<Rightarrow> (lg', map_sum id FRow r))
            | Some peek \<Rightarrow>
                if truthy (field_name peek) \<and> field_no peek = VNone
                then (case DynamicField_init py iter_order lg row rows tys of
                        (lg', r) \<Rightarrow> (lg', map_sum id FDynamic r))
                else (case RowField_init py lg row tys of (lg', r) \<Rightarrow> (lg', map_sum id FRow r))))"

section \<open>Dispatch of parse\<close>

text \<open>
  \<^verbatim>\<open>field.parse(...)\<close> on an object of any of the classes. The calls nest through the
  message (a delegate or an override is looked up by name and parsed in turn), so the
  depth of the nesting is bounded as the interpreter bounds it: beyond \<open>depth\<close> nested
  calls a \<^verbatim>\<open>RecursionError\<close> is raised.
\<close>

primrec field_parse :: "python \<Rightarrow> nat \<Rightarrow> 'a parser" where
  "field_parse py 0 = (\<lambda>f data count endian rfs accum msg. raise RecursionError)"
| "field_parse py (Suc depth) =
     (\<lambda>f data count endian rfs accum msg.
        case f of
          FTyped t \<Rightarrow> TypedField_parse py t data count endian accum
        | FRow t \<Rightarrow> TypedField_parse py t data count endian accum
        | FDynamic d \<Rightarrow> DynamicField_parse py (field_parse py depth) d data count endian rfs accum msg
        | FComposite c \<Rightarrow> CompositeField_parse py (field_parse py depth) c data count endian rfs accum msg)"

section \<open>A decode type and collaborators for the scenarios\<close>

text \<open>
  Unsigned bytes: each value is one byte of the buffer, \<^verbatim>\<open>count\<close> of them. The registry
  holds types of this kind; every function above takes any decode type.
\<close>

definition uint8 :: ftype where
  "uint8 = \<lparr>type_parse = (\<lambda>data count endian. Some (map (\<lambda>b. VInt (uint b)) (take (nat count) data))),
            type_size = 1\<rparr>"

text \<open>A decode type that reports every buffer as absent.\<close>

definition absent_type :: ftype where
  "absent_type = \<lparr>type_parse = (\<lambda>data count endian. None), type_size = 1\<rparr>"

text \<open>
  An interpreter for the scenarios. It reads no text as a float and prints every float
  as the empty text; on finite floats it divides and subtracts without rounding, as the
  interpreter does wherever the exact result is a double, which it is in every scenario
  below (21 / 2 is 10.5); it has the default limit of 4300 digits, and memory for
  \<^verbatim>\<open>1 << n\<close> up to \<open>n = 2\<^sup>4\<^sup>0\<close>.
\<close>

definition exact_div :: "pyfl \<Rightarrow> pyfl \<Rightarrow> pyfl" where
  "exact_div x y = (case (x, y) of (Finite a, Finite b) \<Rightarrow> Finite (a / b) | _ \<Rightarrow> NaN)"

definition exact_sub :: "pyfl \<Rightarrow> pyfl \<Rightarrow> pyfl" where
  "exact_sub x y = (case (x, y) of (Finite a, Finite b) \<Rightarrow> Finite (a - b) | _ \<Rightarrow> NaN)"

definition exact_python :: python where
  "exact_python =
     \<lparr>float_of_str = (\<lambda>s. None), float_repr = (\<lambda>x. []),
      float_of_int = (\<lambda>i. Some (Finite (of_int i))),
      int_truediv = (\<lambda>i j. Some (Finite (of_int i / of_int j))),
      float_truediv = exact_div, float_sub = exact_sub,
      max_str_digits = 4300,
      lshift_error = (\<lambda>n. if 2 ^ 40 < n then Some MemoryError else None)\<rparr>"

text \<open>An accumulator without state that adds 1000 to every integer value.\<close>

definition plus_1000 :: "unit accumulate" where
  "plus_1000 f vals a = (map (\<lambda>v. case v of VInt i \<Rightarrow> VInt (i + 1000) | _ \<Rightarrow> v) vals, a)"

text \<open>A row with every column empty, and the world with an empty log.\<close>

definition blank_row :: Row where
  "blank_row = \<lparr>msg_name = VNone, field_no = VNone, field_name = VNone, field_type = VNone,
     array = VNone, components = VNone, scale = VNone, offset = VNone, units = VNone,
     bits = VNone, accumulate = VNone, ref_name = VNone, ref_value = VNone, comment = VNone,
     products = VNone, example = VNone\<rparr>"

definition world0 :: "unit world" where
  "world0 = \<lparr>warned = [], acc = ()\<rparr>"

text \<open>
  A simple field of a message, of a given name and decode type, with no unit, scale,
  offset or accumulation; and the registry that resolves every tag to \<open>uint8\<close>.
\<close>

definition plain_field :: "string \<Rightarrow> ftype \<Rightarrow> TypedField" where
  "plain_field nm ty =
     \<lparr>scaled = ScaledField_init (VStr nm) VNone VNone VNone VNone, number = VNone, ftype = ty\<rparr>"

definition all_uint8 :: types where
  "all_uint8 tag = Inr uint8"

text \<open>
  The composite scenario: a row with components \<^verbatim>\<open>"a,b"\<close> and bits \<^verbatim>\<open>"3,5"\<close>, in a
  message whose fields \<^verbatim>\<open>a\<close> and \<^verbatim>\<open>b\<close> are simple fields of unsigned bytes.
\<close>

definition row_ab :: Row where
  "row_ab = blank_row\<lparr>field_no := VInt 3, field_name := VStr ''c'',
     components := VStr ''a,b'', bits := VStr ''3,5''\<rparr>"

definition msg_ab :: message where
  "msg_ab nm =
     (if nm = VStr ''a'' then Inr (FRow (plain_field ''a'' uint8))
      else if nm = VStr ''b'' then Inr (FRow (plain_field ''b'' uint8))
      else Inl KeyError)"

text \<open>
  The dynamic scenario: a field \<^verbatim>\<open>d\<close> followed by two override rows, \<^verbatim>\<open>X\<close> for the
  reference \<^verbatim>\<open>A\<close> and \<^verbatim>\<open>Y\<close> for the reference \<^verbatim>\<open>B\<close>, in a message that holds \<^verbatim>\<open>X\<close> and
  \<^verbatim>\<open>Y\<close> as simple fields; the table of the specification's example; references maps
  with \<^verbatim>\<open>A\<close> alone and with both names.
\<close>

definition row_d :: Row where
  "row_d = blank_row\<lparr>field_no := VInt 1, field_name := VStr ''d''\<rparr>"

definition row_X :: Row where
  "row_X = blank_row\<lparr>field_name := VStr ''X'', ref_name := VStr ''A'', ref_value := VStr ''1''\<rparr>"

definition row_Y :: Row where
  "row_Y = blank_row\<lparr>field_name := VStr ''Y'', ref_name := VStr ''B'', ref_value := VStr ''1''\<rparr>"

definition msg_XY :: message where
  "msg_XY nm =
     (if nm = VStr ''X'' then Inr (FRow (plain_field ''X'' uint8))
      else if nm = VStr ''Y'' then Inr (FRow (plain_field ''Y'' uint8))
      else Inl KeyError)"

definition table_XY :: "((pyval \<times> pyval) \<times> pyval) list" where
  "table_XY = [((VStr ''A'', VInt 1), VStr ''X''), ((VStr ''B'', VInt 1), VStr ''Y'')]"

definition dynamic_XY :: "pyval list \<Rightarrow> DynamicField" where
  "dynamic_XY order =
     \<lparr>typed = plain_field ''d'' uint8, dynamic_lookup = table_XY, references = order\<rparr>"

definition refs_A :: refs where
  "refs_A = [VStr ''A'' \<mapsto> (Some [VInt 1], VNone)]"

definition refs_AB :: refs where
  "refs_AB = [VStr ''A'' \<mapsto> (Some [VStr ''1''], VNone), VStr ''B'' \<mapsto> (Some [VStr ''1''], VNone)]"

text \<open>A simple field of unsigned bytes whose accumulate flag is set.\<close>

definition counter_field :: TypedField where
  "counter_field =
     \<lparr>scaled = ScaledField_init (VStr ''x'') VNone VNone VNone (VInt 1), number = VNone,
      ftype = uint8\<rparr>"

text \<open>
  The composite fields that \<^verbatim>\<open>CompositeField.__init__\<close> builds from the row of the
  composite scenario, and from the same row declared with bits \<^verbatim>\<open>"8,8"\<close>.
\<close>

definition composite_ab :: CompositeField where
  "composite_ab = \<lparr>c_name = VStr ''c'', c_number = VInt 3,
     c_components =
       [(3, ScaledField_init (VStr ''a'') VNone VNone VNone VNone),
        (5, ScaledField_init (VStr ''b'') VNone VNone VNone VNone)]\<rparr>"

definition composite_wide :: CompositeField where
  "composite_wide = \<lparr>c_name = VStr ''c'', c_number = VInt 3,
     c_components =
       [(8, ScaledField_init (VStr ''a'') VNone VNone VNone VNone),
        (8, ScaledField_init (VStr ''b'') VNone VNone VNone VNone)]\<rparr>"

text \<open>
  The message of the composite scenario with the composite itself as its field \<^verbatim>\<open>c\<close>;
  the message of the dynamic scenario with the dynamic field as its field \<^verbatim>\<open>d\<close>.
\<close>

definition msg_abc :: message where
  "msg_abc nm = (if nm = VStr ''c'' then Inr (FComposite composite_ab) else msg_ab nm)"

definition msg_XYd :: message where
  "msg_XYd nm =
     (if nm = VStr ''d'' then Inr (FDynamic (dynamic_XY [VStr ''A'', VStr ''B''])) else msg_XY nm)"

text \<open>The exception that \<^verbatim>\<open>DelegateField.parse\<close> raises for a scaled full delegation.\<close>

definition config_error :: pyerr where
  "config_error = Exception ''Scaled component is not a simple field''"

text \<open>
  The dynamic field that \<^verbatim>\<open>DynamicField.__init__\<close> builds from the row \<^verbatim>\<open>d\<close> followed by
  the override rows \<^verbatim>\<open>X\<close> and \<^verbatim>\<open>Y\<close>, for a given iteration order of its set of names.
\<close>

definition dynamic_of_rows :: "(pyval list \<Rightarrow> pyval list) \<Rightarrow> DynamicField" where
  "dynamic_of_rows iter_order =
     \<lparr>typed = \<lparr>scaled = ScaledField_init (VStr ''d'') VNone VNone VNone VNone, number = VInt 1,
                ftype = uint8\<rparr>,
      dynamic_lookup = [((VStr ''A'', VStr ''1''), VStr ''X''), ((VStr ''B'', VStr ''1''), VStr ''Y'')],
      references = iter_order [VStr ''A'', VStr ''B'']\<rparr>"

text \<open>
  A references map in which the tracked name \<^verbatim>\<open>A\<close> is present with absent values, as the
  entry of a field whose buffer could not be decoded.
\<close>

definition refs_absent :: refs where
  "refs_absent = [VStr ''A'' \<mapsto> (None, VNone)]"

section \<open>Notions of the specification\<close>

text \<open>
  An override row: a row with a field name and no field number. A blank row is none.
\<close>

definition override_row :: "Row option \<Rightarrow> bool" where
  "override_row r =
     (case r of None \<Rightarrow> False | Some row \<Rightarrow> truthy (field_name row) \<and> field_no row = VNone)"

text \<open>
  The resolution table and the tracked names registered from a list of rows: for each
  row in turn, each \<^verbatim>\<open>(ref_name, ref_value)\<close> pair of it maps to the row's field name.
\<close>

definition registered ::
  "python \<Rightarrow> Row list \<Rightarrow> ((pyval \<times> pyval) \<times> pyval) list \<times> pyval list" where
  "registered py rs =
     foldl (\<lambda>st row. foldl (register (field_name row)) st (Zip_zip py [ref_name row, ref_value row]))
       ([], []) rs"

text \<open>
  A tracked name does not resolve, in the words of the specification: it is absent from
  the references map, or its value has no entry in the resolution table. A name that is
  present with no decoded value (absent or empty values) has no value to look up, hence
  no entry.
\<close>

definition unresolved :: "DynamicField \<Rightarrow> refs \<Rightarrow> pyval \<Rightarrow> bool" where
  "unresolved d rfs nm =
     (case rfs nm of
        None \<Rightarrow> True
      | Some (vals, un) \<Rightarrow>
          (case vals of
             Some (v # vs) \<Rightarrow> dict_get (dynamic_lookup d) (nm, v) = None
           | _ \<Rightarrow> True))"

text \<open>
  The loop of \<^verbatim>\<open>DynamicField.parse\<close> passes over a tracked name: the name is absent
  from the references map, or it is present with a first decoded value that has no
  entry in the table under that name. (A name present without a first value is not
  passed over: the subscript raises.)
\<close>

definition passed_over :: "DynamicField \<Rightarrow> refs \<Rightarrow> pyval \<Rightarrow> bool" where
  "passed_over d rfs nm =
     (case rfs nm of
        None \<Rightarrow> True
      | Some (vals, un) \<Rightarrow>
          (case vals of
             Some (v # vs) \<Rightarrow> dict_get (dynamic_lookup d) (nm, v) = None
           | _ \<Rightarrow> False))"

text \<open>The pieces of one comma-joined attribute, before any padding.\<close>

definition pieces :: "python \<Rightarrow> pyval \<Rightarrow> pyval list" where
  "pieces py field = fst (Zip_split py field False)"

text \<open>
  A numeric column degraded to absent: the integer that \<^verbatim>\<open>int\<close> converts the cell to, or
  \<^verbatim>\<open>None\<close> when there is none; the warning that goes with a cell that \<^verbatim>\<open>int\<close> rejects with
  a \<^verbatim>\<open>ValueError\<close>; and the cells on which \<^verbatim>\<open>int\<close> raises nothing else.
\<close>

definition degraded :: "python \<Rightarrow> pyval \<Rightarrow> pyval" where
  "degraded py v = (case py_int py v of Inr i \<Rightarrow> VInt i | Inl e \<Rightarrow> VNone)"

definition complaint :: "python \<Rightarrow> pyval \<Rightarrow> warning list" where
  "complaint py v =
     (if v \<noteq> VNone \<and> py_int py v = Inl ValueError then [CannotParseSingleInt v] else [])"

definition caught :: "python \<Rightarrow> pyval \<Rightarrow> bool" where
  "caught py v = (v = VNone \<or> (case py_int py v of Inr i \<Rightarrow> True | Inl e \<Rightarrow> e = ValueError))"

text \<open>
  Decoding components from zero-filled buffers: each component in turn, through its
  delegate with count 1, from \<open>max(ceil(bits/8), size)\<close> zero bytes.
\<close>

fun zero_filled ::
  "python \<Rightarrow> 'a parser \<Rightarrow> int \<Rightarrow> refs \<Rightarrow> 'a accumulate \<Rightarrow> message \<Rightarrow>
   (int \<times> ScaledField) list \<Rightarrow> 'a gen" where
  "zero_filled py parse endian rfs accum msg [] = (\<lambda>w. ([], None, w))"
| "zero_filled py parse endian rfs accum msg ((nbits, f) # rest) =
     (case DelegateField_size f msg of
        Inl e \<Rightarrow> raise e
      | Inr sz \<Rightarrow>
          if nbits < 0 then raise ValueError
          else and_then
                 (DelegateField_parse py parse f
                    (replicate (nat (max ((nbits + 7) div 8) (int sz))) 0) 1 endian rfs accum msg)
                 (zero_filled py parse endian rfs accum msg rest))"

section \<open>Row.single_int\<close>

lemma int_of_str_12: "int_of_str exact_python ''12'' = Inr 12"
  by (simp add: int_of_str_def strip_c_def is_c_space_def int_digits_def is_digit_def digit_val_def
      exact_python_def)

lemma int_of_str_7: "int_of_str exact_python ''7'' = Inr 7"
  by (simp add: int_of_str_def strip_c_def is_c_space_def int_digits_def is_digit_def digit_val_def
      exact_python_def)

lemma int_of_str_list: "int_of_str exact_python ''1,2'' = Inl ValueError"
  by (simp add: int_of_str_def strip_c_def is_c_space_def int_digits_def is_digit_def digit_val_def
      exact_python_def)

lemma single_int_caught:
  "caught py v \<Longrightarrow> single_int py lg v = (lg @ complaint py v, Inr (degraded py v))"
  by (auto simp: caught_def single_int_def complaint_def degraded_def split: sum.splits)

text \<open>
  Claim C10, as stated, fails: \<^verbatim>\<open>Row.single_int\<close> catches \<^verbatim>\<open>ValueError\<close> only. On an
  infinite float \<^verbatim>\<open>int\<close> raises \<^verbatim>\<open>OverflowError\<close> and on a \<^verbatim>\<open>datetime\<close> cell \<^verbatim>\<open>TypeError\<close>;
  both leave the method, with no warning.
\<close>

theorem single_int_raises:
  "single_int exact_python [] (VFloat PosInf) = ([], Inl OverflowError) \<and>
   single_int exact_python [] (VDatetime ''2018-01-01 00:00:00'') = ([], Inl TypeError)"
  by (simp add: single_int_def)

text \<open>
  Claim C10, amended. For \<^verbatim>\<open>None\<close> \<^verbatim>\<open>Row.single_int\<close> returns \<^verbatim>\<open>None\<close> and logs nothing; for
  a value that \<^verbatim>\<open>int\<close> converts it returns that integer and logs nothing; for a value on
  which \<^verbatim>\<open>int\<close> raises \<^verbatim>\<open>ValueError\<close> it logs one warning and returns \<^verbatim>\<open>None\<close>; any other
  exception of \<^verbatim>\<open>int\<close> leaves the method. So, in a row whose number, scale, offset and
  accumulate columns make \<^verbatim>\<open>int\<close> raise nothing but \<^verbatim>\<open>ValueError\<close>, a malformed column does
  not abort the construction of the \<^verbatim>\<open>RowField\<close>: the field is built with each of the four
  attributes at its integer, or absent where the column is malformed, and the log
  receives the warnings of the malformed columns in that order.
\<close>

theorem single_int_cases:
  "single_int py lg VNone = (lg, Inr VNone) \<and>
   (py_int py v = Inr i \<longrightarrow> single_int py lg v = (lg, Inr (VInt i))) \<and>
   (v \<noteq> VNone \<and> py_int py v = Inl ValueError \<longrightarrow>
      single_int py lg v = (lg @ [CannotParseSingleInt v], Inr VNone)) \<and>
   (v \<noteq> VNone \<and> py_int py v = Inl e \<and> e \<noteq> ValueError \<longrightarrow> single_int py lg v = (lg, Inl e)) \<and>
   (caught py (field_no row) \<and> caught py (scale row) \<and> caught py (offset row) \<and>
    caught py (accumulate row) \<longrightarrow>
      RowField_init py lg row tys =
        (lg @ complaint py (field_no row) @ complaint py (scale row) @ complaint py (offset row) @
           complaint py (accumulate row),
         TypedField_init (field_name row) (degraded py (field_no row)) (units row)
           (degraded py (scale row)) (degraded py (offset row)) (degraded py (accumulate row))
           (field_type row) tys))"
proof (intro conjI impI)
  show "single_int py lg VNone = (lg, Inr VNone)"
    by (simp add: single_int_def)
  show "single_int py lg v = (lg, Inr (VInt i))" if "py_int py v = Inr i"
    using that by (cases v) (auto simp: single_int_def)
  show "single_int py lg v = (lg @ [CannotParseSingleInt v], Inr VNone)"
    if "v \<noteq> VNone \<and> py_int py v = Inl ValueError"
    using that by (simp add: single_int_def)
  show "single_int py lg v = (lg, Inl e)" if "v \<noteq> VNone \<and> py_int py v = Inl e \<and> e \<noteq> ValueError"
    using that by (simp add: single_int_def)
  show "RowField_init py lg row tys =
        (lg @ complaint py (field_no row) @ complaint py (scale row) @ complaint py (offset row) @
           complaint py (accumulate row),
         TypedField_init (field_name row) (degraded py (field_no row)) (units row)
           (degraded py (scale row)) (degraded py (offset row)) (degraded py (accumulate row))
           (field_type row) tys)"
    if "caught py (field_no row) \<and> caught py (scale row) \<and> caught py (offset row) \<and>
        caught py (accumulate row)"
    using that by (simp add: RowField_init_def single_int_caught)
qed

theorem single_int_cases_witness:
  "single_int exact_python [] (VStr ''12'') = ([], Inr (VInt 12)) \<and>
   single_int exact_python [] (VStr ''1,2'') = ([CannotParseSingleInt (VStr ''1,2'')], Inr VNone) \<and>
   single_int exact_python [] (VFloat PosInf) = ([], Inl OverflowError) \<and>
   RowField_init exact_python [] (blank_row\<lparr>field_no := VStr ''7'', scale := VStr ''1,2''\<rparr>) all_uint8 =
     ([CannotParseSingleInt (VStr ''1,2'')],
      Inr \<lparr>scaled = ScaledField_init VNone VNone VNone VNone VNone, number = VInt 7,
           ftype = uint8\<rparr>)"
  using single_int_cases [where py = exact_python and lg = "[]" and v = "VStr ''12''" and i = 12
          and e = TypeError and tys = all_uint8
          and row = "blank_row\<lparr>field_no := VStr ''7'', scale := VStr ''1,2''\<rparr>"]
        single_int_cases [where py = exact_python and lg = "[]" and v = "VStr ''1,2''" and i = 0
          and e = TypeError and tys = all_uint8 and row = blank_row]
        single_int_cases [where py = exact_python and lg = "[]" and v = "VFloat PosInf" and i = 0
          and e = OverflowError and tys = all_uint8 and row = blank_row]
  by (simp add: int_of_str_12 int_of_str_7 int_of_str_list all_uint8_def caught_def complaint_def
      degraded_def blank_row_def TypedField_init_def)

section \<open>Zip\<close>

lemma Zip_split_parts: "Zip_split py field ext = (pieces py field, ext)"
  by (simp add: Zip_split_def pieces_def)

lemma extended_filtered:
  "2 \<le> k \<Longrightarrow>
   filter (\<lambda>g. \<not> snd g) (map (\<lambda>(n, field). Zip_split py field (n > 1)) (enumerate k flds)) = []"
  by (induction flds arbitrary: k) (simp_all add: Zip_split_parts)

lemma zip_len_fields:
  "zip_len (map (\<lambda>(n, field). Zip_split py field (n > 1)) (enumerate 0 flds)) =
     (case flds of
        [] \<Rightarrow> 0
      | [a] \<Rightarrow> length (pieces py a)
      | a # b # rest \<Rightarrow> min (length (pieces py a)) (length (pieces py b)))"
proof (cases flds)
  case Nil
  then show ?thesis by (simp add: zip_len_def)
next
  case (Cons a as)
  show ?thesis
  proof (cases as)
    case Nil
    with Cons show ?thesis by (simp add: zip_len_def Zip_split_parts)
  next
    case (Cons b rest)
    have "filter (\<lambda>g. \<not> snd g)
            (map (\<lambda>(n, field). Zip_split py field (n > 1)) (enumerate (Suc (Suc 0)) rest)) = []"
      by (rule extended_filtered) simp
    with Cons \<open>flds = a # as\<close> show ?thesis
      by (simp add: zip_len_def Zip_split_parts)
  qed
qed

lemma gens_nth:
  "j < length flds \<Longrightarrow>
   map (\<lambda>(n, field). Zip_split py field (n > 1)) (enumerate k flds) ! j =
     (pieces py (flds ! j), k + j > 1)"
  by (simp add: nth_enumerate_eq Zip_split_parts)

lemma pieces_ab: "pieces py (VStr ''a,b'') = [VStr ''a'', VStr ''b'']"
  by (simp add: pieces_def Zip_split_def strip_def is_space_def)

lemma pieces_35: "pieces py (VStr ''3,5'') = [VStr ''3'', VStr ''5'']"
  by (simp add: pieces_def Zip_split_def strip_def is_space_def)

lemma pieces_m: "pieces py (VStr ''m'') = [VStr ''m'']"
  by (simp add: pieces_def Zip_split_def strip_def is_space_def)

text \<open>
  Claim C9, as stated, fails: with the component list \<^verbatim>\<open>"a,b"\<close> and the shorter second
  list \<^verbatim>\<open>"3"\<close> the helper yields one tuple, not one per component; the tuple of component
  \<^verbatim>\<open>b\<close> is dropped. The second list is split with \<^verbatim>\<open>extend = False\<close> like the first
  (\<^verbatim>\<open>extend = n > 1\<close>), so it is not padded.
\<close>

theorem Zip_zip_drops_component:
  "Zip_zip exact_python [VStr ''a,b'', VStr ''3''] = [[VStr ''a'', VStr ''3'']] \<and>
   pieces exact_python (VStr ''a,b'') = [VStr ''a'', VStr ''b'']"
  by (simp add: Zip_zip_def Zip_split_def zip_len_def gen_item_def strip_def is_space_def
      enumerate_eq_zip pieces_def)

text \<open>
  Claim C9, amended. The helper yields its tuples in lockstep, one per position up to
  the shorter of the first two lists, which are both mandatory and never padded (up to
  the length of the only list when there is one). Every tuple has one item per list:
  the piece of that list at the position, or \<^verbatim>\<open>None\<close> where the list is shorter, which can
  only be a list from the third on.
\<close>

theorem Zip_zip_lockstep:
  "length (Zip_zip py flds) =
     (case flds of
        [] \<Rightarrow> 0
      | [a] \<Rightarrow> length (pieces py a)
      | a # b # rest \<Rightarrow> min (length (pieces py a)) (length (pieces py b))) \<and>
   (\<forall>i < length (Zip_zip py flds).
      length (Zip_zip py flds ! i) = length flds \<and>
      (\<forall>j < length flds.
         Zip_zip py flds ! i ! j =
           (if i < length (pieces py (flds ! j)) then pieces py (flds ! j) ! i else VNone)))"
proof -
  let ?gens = "map (\<lambda>(n, field). Zip_split py field (n > 1)) (enumerate 0 flds)"
  have len: "length (Zip_zip py flds) = zip_len ?gens"
    by (simp add: Zip_zip_def)
  have item: "Zip_zip py flds ! i ! j =
      (if i < length (pieces py (flds ! j)) then pieces py (flds ! j) ! i else VNone)"
    if "i < length (Zip_zip py flds)" and "j < length flds" for i j
  proof -
    from that len have i: "i < zip_len ?gens" by simp
    have "Zip_zip py flds ! i ! j = gen_item (?gens ! j) i"
      using i that(2) by (simp add: Zip_zip_def Let_def)
    also have "?gens ! j = (pieces py (flds ! j), 0 + j > 1)"
      using that(2) by (rule gens_nth)
    also have "gen_item (pieces py (flds ! j), 0 + j > 1) i =
        (if i < length (pieces py (flds ! j)) then pieces py (flds ! j) ! i else VNone)"
      by (simp add: gen_item_def)
    finally show ?thesis .
  qed
  have width: "length (Zip_zip py flds ! i) = length flds" if "i < length (Zip_zip py flds)" for i
    using that len by (simp add: Zip_zip_def Let_def)
  have "length (Zip_zip py flds) =
     (case flds of
        [] \<Rightarrow> 0
      | [a] \<Rightarrow> length (pieces py a)
      | a # b # rest \<Rightarrow> min (length (pieces py a)) (length (pieces py b)))"
    unfolding len by (rule zip_len_fields)
  with item width show ?thesis
    by blast
qed

theorem Zip_zip_lockstep_witness:
  "length (Zip_zip exact_python [VStr ''a,b'', VStr ''3,5'', VStr ''m'']) = 2 \<and>
   Zip_zip exact_python [VStr ''a,b'', VStr ''3,5'', VStr ''m''] ! 1 ! 0 = VStr ''b'' \<and>
   Zip_zip exact_python [VStr ''a,b'', VStr ''3,5'', VStr ''m''] ! 1 ! 2 = VNone"
proof -
  let ?flds = "[VStr ''a,b'', VStr ''3,5'', VStr ''m'']"
  note main = Zip_zip_lockstep [where py = exact_python and flds = ?flds]
  have len: "length (Zip_zip exact_python ?flds) = 2"
    using main by (simp add: pieces_ab pieces_35)
  have row1: "\<forall>j < length ?flds.
      Zip_zip exact_python ?flds ! 1 ! j =
        (if 1 < length (pieces exact_python (?flds ! j)) then pieces exact_python (?flds ! j) ! 1 else VNone)"
    using main len by simp
  have "Zip_zip exact_python ?flds ! 1 ! 0 = VStr ''b''"
    using row1 [rule_format, of 0] by (simp add: pieces_ab)
  moreover have "Zip_zip exact_python ?flds ! 1 ! 2 = VNone"
    using row1 [rule_format, of 2] by (simp add: pieces_m)
  ultimately show ?thesis using len by simp
qed

section \<open>ScaledField\<close>

text \<open>
  Claim C2, as stated, fails: a simple field whose decode type reports the buffer as
  absent still yields one entry, with absent values. The \<^verbatim>\<open>yield\<close> of
  \<^verbatim>\<open>_parse_and_scale\<close> is outside the test \<^verbatim>\<open>values is not None\<close>.
\<close>

theorem absent_values_are_emitted:
  "field_parse exact_python 1 (FRow (plain_field ''x'' absent_type)) [0x15] 1 0 Map.empty plus_1000 msg_ab world0 =
     ([(VStr ''x'', (None, VNone))], None, world0)"
  by (simp add: TypedField_parse_def parse_and_scale_def plain_field_def absent_type_def
      ScaledField_init_def)

text \<open>
  Claim C2, amended. When the decode type produces no values, the decode of a simple
  field emits exactly one entry: the field's name with absent values and the field's
  units. Nothing is scaled or accumulated, nothing is raised and nothing else changes.
\<close>

theorem absent_values_one_entry:
  "(type_parse ty data count endian = None \<longrightarrow>
      parse_and_scale py f ty data count endian accum w = ([(name f, (None, f_units f))], None, w)) \<and>
   (type_parse (ftype t) data count endian = None \<longrightarrow>
      field_parse py (Suc depth) (FRow t) data count endian rfs accum msg w =
        ([(name (scaled t), (None, f_units (scaled t)))], None, w))"
  by (simp add: TypedField_parse_def parse_and_scale_def)

theorem absent_values_one_entry_witness:
  "parse_and_scale exact_python (scaled (plain_field ''x'' absent_type)) absent_type [0x15] 1 0 plus_1000 world0 =
     ([(VStr ''x'', (None, VNone))], None, world0) \<and>
   field_parse exact_python (Suc 0) (FRow (plain_field ''x'' absent_type)) [0x15] 1 0 Map.empty plus_1000 msg_ab world0 =
     ([(VStr ''x'', (None, VNone))], None, world0)"
  using absent_values_one_entry [where py = exact_python and ty = absent_type and data = "[0x15]" and count = 1
      and endian = 0 and f = "scaled (plain_field ''x'' absent_type)" and accum = plus_1000
      and w = world0 and t = "plain_field ''x'' absent_type" and depth = 0 and rfs = Map.empty
      and msg = msg_ab]
  by (simp add: absent_type_def plain_field_def ScaledField_init_def)

lemma collect_map_Inr:
  "collect (map g xs) = Inr ys \<longleftrightarrow>
     length ys = length xs \<and> (\<forall>i < length xs. g (xs ! i) = Inr (ys ! i))"
proof (induction xs arbitrary: ys)
  case Nil
  show ?case by auto
next
  case (Cons x xs)
  show ?case
  proof (cases "g x")
    case (Inl e)
    then show ?thesis by auto
  next
    case (Inr y)
    show ?thesis
    proof (cases ys)
      case Nil
      with Inr show ?thesis by (auto split: sum.splits)
    next
      case (Cons y' ys')
      have "collect (map g (x # xs)) = Inr (y' # ys') \<longleftrightarrow> y = y' \<and> collect (map g xs) = Inr ys'"
        using Inr by (auto split: sum.splits)
      also have "\<dots> \<longleftrightarrow> y = y' \<and> length ys' = length xs \<and> (\<forall>i < length xs. g (xs ! i) = Inr (ys' ! i))"
        using Cons.IH [of ys'] by simp
      also have "\<dots> \<longleftrightarrow> length (y' # ys') = length (x # xs) \<and>
          (\<forall>i < length (x # xs). g ((x # xs) ! i) = Inr ((y' # ys') ! i))"
        using Inr by (auto simp: nth_Cons split: nat.splits)
      finally show ?thesis using Cons by simp
    qed
  qed
qed

lemma collect_first_error:
  "i < length xs \<Longrightarrow> g (xs ! i) = Inl e \<Longrightarrow> \<forall>j < i. \<exists>x. g (xs ! j) = Inr x \<Longrightarrow>
   collect (map g xs) = Inl e"
proof (induction xs arbitrary: i)
  case Nil
  then show ?case by simp
next
  case (Cons x xs)
  show ?case
  proof (cases i)
    case 0
    with Cons.prems show ?thesis by simp
  next
    case (Suc k)
    with Cons.prems(3) obtain y where y: "g x = Inr y" by fastforce
    have "\<forall>j < k. \<exists>x. g (xs ! j) = Inr x"
      using Cons.prems(3) Suc by fastforce
    with Cons.IH [of k] Cons.prems Suc have "collect (map g xs) = Inl e" by simp
    with y show ?thesis by simp
  qed
qed

lemma scale_21_by_2:
  "py_truediv exact_python (VInt 21) (VInt 2) = Inr (VFloat (Finite (21 / 2))) \<and>
   py_sub exact_python (VFloat (Finite (21 / 2))) (VInt 1) = Inr (VFloat (Finite (19 / 2)))"
  by (simp add: exact_python_def exact_sub_def)

text \<open>
  Claim C4, as stated, fails: a simple field with scale 1 and offset 0 whose accumulate
  flag is set emits what the accumulator returns, not the raw values of the decode
  type. Here the raw value is 21 and the emitted value 1021.
\<close>

theorem accumulated_values_differ:
  "field_parse exact_python 1 (FRow counter_field) [0x15] 1 0 Map.empty plus_1000 msg_ab world0 =
     ([(VStr ''x'', (Some [VInt 1021], VNone))], None, world0) \<and>
   type_parse (ftype counter_field) [0x15] 1 0 = Some [VInt 21] \<and>
   f_scale (scaled counter_field) = VInt 1 \<and> f_offset (scaled counter_field) = VInt 0"
  by (simp add: TypedField_parse_def parse_and_scale_def counter_field_def uint8_def
      ScaledField_init_def Let_def plus_1000_def world0_def)

text \<open>
  Claim C4, amended. For every simple field, scale defaults to 1 and offset to 0, and
  the field counts as scaled iff scale \<open>\<noteq>\<close> 1 or offset \<open>\<noteq>\<close> 0. When it is scaled, each
  decoded value \<open>v\<close> becomes \<open>v / scale - offset\<close>, elementwise, with the interpreter's
  true division and subtraction (in floating point, as the interpreter rounds them);
  the first value on which either raises ends the decode with that exception and no
  entry. When scale = 1 and offset = 0 the values are the raw values of the decode type,
  unchanged. These values are emitted as they are when the accumulate flag of the field
  is not set; when it is set they are handed to the accumulator and its result is
  emitted.
\<close>

theorem scaled_values:
  "let f = ScaledField_init nm un sc off accum;
       emit = (\<lambda>vs. if truthy accum
                     then (case accum_fun f vs (acc w) of
                             (vs', a') \<Rightarrow> ([(nm, (Some vs', un))], None, w\<lparr>acc := a'\<rparr>))
                     else ([(nm, (Some vs, un))], None, w))
   in f_scale f = (if sc = VNone then VInt 1 else sc) \<and>
      f_offset f = (if off = VNone then VInt 0 else off) \<and>
      is_scaled f = (\<not> py_eq (f_scale f) (VInt 1) \<or> \<not> py_eq (f_offset f) (VInt 0)) \<and>
      (type_parse ty data count endian = Some vals \<longrightarrow>
         (is_scaled f \<and> length vals' = length vals \<and>
          (\<forall>i < length vals. \<exists>q. py_truediv py (vals ! i) (f_scale f) = Inr q \<and>
                                  py_sub py q (f_offset f) = Inr (vals' ! i)) \<longrightarrow>
            parse_and_scale py f ty data count endian accum_fun w = emit vals') \<and>
         (is_scaled f \<and> k < length vals \<and> scale_value py f (vals ! k) = Inl e \<and>
          (\<forall>j < k. \<exists>x. scale_value py f (vals ! j) = Inr x) \<longrightarrow>
            parse_and_scale py f ty data count endian accum_fun w = ([], Some e, w)) \<and>
         (\<not> is_scaled f \<longrightarrow> parse_and_scale py f ty data count endian accum_fun w = emit vals))"
proof -
  define f where "f = ScaledField_init nm un sc off accum"
  have parts: "name f = nm" "f_units f = un" "is_accumulate f = accum"
    "f_scale f = (if sc = VNone then VInt 1 else sc)"
    "f_offset f = (if off = VNone then VInt 0 else off)"
    "is_scaled f = (\<not> py_eq (f_scale f) (VInt 1) \<or> \<not> py_eq (f_offset f) (VInt 0))"
    by (simp_all add: f_def ScaledField_init_def Let_def)
  have scaled: "parse_and_scale py f ty data count endian accum_fun w =
      (if truthy accum
       then (case accum_fun f vals' (acc w) of
               (vs', a') \<Rightarrow> ([(nm, (Some vs', un))], None, w\<lparr>acc := a'\<rparr>))
       else ([(nm, (Some vals', un))], None, w))"
    if p: "type_parse ty data count endian = Some vals" and s: "is_scaled f"
      and len: "length vals' = length vals"
      and each: "\<forall>i < length vals. \<exists>q. py_truediv py (vals ! i) (f_scale f) = Inr q \<and>
                                  py_sub py q (f_offset f) = Inr (vals' ! i)"
  proof -
    have "\<forall>i < length vals. scale_value py f (vals ! i) = Inr (vals' ! i)"
      using each by (auto simp: scale_value_def)
    with len have "collect (map (scale_value py f) vals) = Inr vals'"
      by (simp add: collect_map_Inr)
    with p s show ?thesis
      by (simp add: parse_and_scale_def parts(1-3))
  qed
  have failed: "parse_and_scale py f ty data count endian accum_fun w = ([], Some e, w)"
    if p: "type_parse ty data count endian = Some vals" and s: "is_scaled f"
      and k: "k < length vals" "scale_value py f (vals ! k) = Inl e"
      "\<forall>j < k. \<exists>x. scale_value py f (vals ! j) = Inr x"
  proof -
    have "collect (map (scale_value py f) vals) = Inl e"
      using k by (rule collect_first_error)
    with p s show ?thesis
      by (simp add: parse_and_scale_def)
  qed
  have plain: "parse_and_scale py f ty data count endian accum_fun w =
      (if truthy accum
       then (case accum_fun f vals (acc w) of
               (vs', a') \<Rightarrow> ([(nm, (Some vs', un))], None, w\<lparr>acc := a'\<rparr>))
       else ([(nm, (Some vals, un))], None, w))"
    if "type_parse ty data count endian = Some vals" "\<not> is_scaled f"
    using that by (simp add: parse_and_scale_def parts(1-3))
  show ?thesis
    unfolding Let_def f_def [symmetric]
    using parts(4-6) scaled failed plain by blast
qed

theorem scaled_values_witness:
  "parse_and_scale exact_python (ScaledField_init (VStr ''x'') VNone (VInt 2) (VInt 1) VNone) uint8
      [0x15] 1 0 plus_1000 world0 =
     ([(VStr ''x'', (Some [VFloat (Finite (19 / 2))], VNone))], None, world0) \<and>
   parse_and_scale exact_python (ScaledField_init (VStr ''x'') VNone VNone VNone VNone) uint8
      [0x15] 1 0 plus_1000 world0 =
     ([(VStr ''x'', (Some [VInt 21], VNone))], None, world0) \<and>
   parse_and_scale exact_python (ScaledField_init (VStr ''x'') VNone (VInt 0) VNone VNone) uint8
      [0x15] 1 0 plus_1000 world0 =
     ([], Some ZeroDivisionError, world0)"
  using scaled_values [where py = exact_python and nm = "VStr ''x''" and un = VNone
          and sc = "VInt 2" and off = "VInt 1"
          and accum = VNone and ty = uint8 and data = "[0x15]" and count = 1 and endian = 0
          and vals = "[VInt 21]" and vals' = "[VFloat (Finite (19 / 2))]" and k = 1
          and e = TypeError and accum_fun = plus_1000 and w = world0]
        scaled_values [where py = exact_python and nm = "VStr ''x''" and un = VNone
          and sc = VNone and off = VNone
          and accum = VNone and ty = uint8 and data = "[0x15]" and count = 1 and endian = 0
          and vals = "[VInt 21]" and vals' = "[]" and k = 1
          and e = TypeError and accum_fun = plus_1000 and w = world0]
        scaled_values [where py = exact_python and nm = "VStr ''x''" and un = VNone
          and sc = "VInt 0" and off = VNone
          and accum = VNone and ty = uint8 and data = "[0x15]" and count = 1 and endian = 0
          and vals = "[VInt 21]" and vals' = "[]" and k = 0
          and e = ZeroDivisionError and accum_fun = plus_1000 and w = world0]
        scale_21_by_2
  by (simp add: Let_def ScaledField_init_def uint8_def scale_value_def)

section \<open>CompositeField\<close>

lemmas init_eval = CompositeField_init_def row_ab_def blank_row_def single_int_def Zip_zip_def
  Zip_split_def zip_len_def gen_item_def strip_def is_space_def enumerate_eq_zip component_of_def
  int_of_str_def strip_c_def is_c_space_def int_digits_def is_digit_def digit_val_def Let_def exact_python_def

lemmas parse_eval = CompositeField_parse_def byteorder_of_def from_bytes_def DelegateField_size_def
  DelegateField_parse_def msg_ab_def plain_field_def ScaledField_init_def Let_def uint8_def exact_python_def
  py_lshift_one_def py_rshift_def to_bytes_def and_then_def parse_and_scale_def world0_def

lemma CompositeField_init_ab: "CompositeField_init exact_python [] row_ab = ([], Inr composite_ab)"
  by (simp add: init_eval composite_ab_def)

text \<open>
  Claim C1 fails on the code. In the scenario of the specification (components
  \<^verbatim>\<open>"a,b"\<close>, bits \<^verbatim>\<open>"3,5"\<close>, the single little-endian byte \<^verbatim>\<open>0b00010101\<close>, no scaling)
  the decode yields \<^verbatim>\<open>a = 21\<close> and then \<^verbatim>\<open>b = 2\<close>, where the claim expects \<^verbatim>\<open>a = 5\<close>. The
  mask is computed from the running integer, \<^verbatim>\<open>(1 << bits) - 1\<close>, instead of the bit
  width, so it masks nothing and \<^verbatim>\<open>a\<close> receives the whole integer.
\<close>

theorem composite_scenario_unmasked:
  "CompositeField_init exact_python [] row_ab = ([], Inr composite_ab) \<and>
   field_parse exact_python 1 (FComposite composite_ab) [0x15] 1 0 Map.empty plus_1000 msg_ab world0 =
     ([(VStr ''a'', (Some [VInt 21], VNone)), (VStr ''b'', (Some [VInt 2], VNone))], None, world0)"
proof
  show "CompositeField_init exact_python [] row_ab = ([], Inr composite_ab)"
    by (rule CompositeField_init_ab)
  show "field_parse exact_python 1 (FComposite composite_ab) [0x15] 1 0 Map.empty plus_1000 msg_ab world0 =
     ([(VStr ''a'', (Some [VInt 21], VNone)), (VStr ''b'', (Some [VInt 2], VNone))], None, world0)"
    by (simp add: composite_ab_def parse_eval)
qed

text \<open>
  Claim C7, as stated, fails: with bits \<^verbatim>\<open>"8,8"\<close>, sixteen bits in all, and a buffer of
  one byte, the decode raises nothing and yields \<^verbatim>\<open>b = 0\<close>, a value of bits the buffer
  does not contain.
\<close>

theorem composite_widths_unchecked:
  "CompositeField_init exact_python [] (row_ab\<lparr>bits := VStr ''8,8''\<rparr>) = ([], Inr composite_wide) \<and>
   field_parse exact_python 1 (FComposite composite_wide) [0x15] 1 0 Map.empty plus_1000 msg_ab world0 =
     ([(VStr ''a'', (Some [VInt 21], VNone)), (VStr ''b'', (Some [VInt 0], VNone))], None, world0)"
proof
  show "CompositeField_init exact_python [] (row_ab\<lparr>bits := VStr ''8,8''\<rparr>) = ([], Inr composite_wide)"
    by (simp add: init_eval composite_wide_def)
  show "field_parse exact_python 1 (FComposite composite_wide) [0x15] 1 0 Map.empty plus_1000 msg_ab world0 =
     ([(VStr ''a'', (Some [VInt 21], VNone)), (VStr ''b'', (Some [VInt 0], VNone))], None, world0)"
    by (simp add: composite_wide_def parse_eval)
qed

lemma from_bytes_little_bounds:
  "0 \<le> from_bytes_little data \<and> from_bytes_little data < 256 ^ length data"
proof (induction data)
  case Nil
  show ?case by simp
next
  case (Cons b bs)
  have "uint b < 256" using uint_bounded [of b] by simp
  moreover have "0 \<le> uint b" by simp
  moreover have "from_bytes_little bs + 1 \<le> 256 ^ length bs" using Cons by simp
  then have "256 * (from_bytes_little bs + 1) \<le> 256 * 256 ^ length bs" by simp
  ultimately show ?case using Cons by (simp add: algebra_simps)
qed

lemma from_bytes_bounds:
  "0 \<le> from_bytes data order \<and> from_bytes data order < 2 ^ (8 * length data)"
proof -
  have "(256::int) ^ length data = 2 ^ (8 * length data)"
    by (simp add: power_mult)
  then show ?thesis
    using from_bytes_little_bounds [of data] from_bytes_little_bounds [of "rev data"]
    by (cases order) (simp_all add: from_bytes_def)
qed

lemma from_bytes_consumed:
  assumes "8 * length data \<le> n"
  shows "drop_bit n (from_bytes data order) = 0"
proof -
  have "from_bytes data order < 2 ^ (8 * length data)" "0 \<le> from_bytes data order"
    using from_bytes_bounds by auto
  moreover have "(2::int) ^ (8 * length data) \<le> 2 ^ n"
    using assms by (simp add: power_increasing)
  ultimately have "from_bytes data order < 2 ^ n" by linarith
  with \<open>0 \<le> from_bytes data order\<close> show ?thesis
    by (simp add: drop_bit_eq_div)
qed

lemma to_bytes_zero:
  assumes "0 \<le> n"
  shows "to_bytes 0 n order = Inr (replicate (nat n) 0)"
proof -
  have "(0::int) < 256 ^ nat n" by simp
  then have "\<not> (256::int) ^ nat n \<le> 0" by (simp only: not_le)
  with assms show ?thesis
    by (cases order) (simp_all add: to_bytes_def map_replicate_const)
qed

lemma and_then_raise: "and_then (raise e) h = raise e"
  by (rule ext) (simp add: and_then_def raise_def)

lemma and_then_assoc: "and_then (and_then g h) k = and_then g (and_then h k)"
  by (rule ext) (auto simp: and_then_def split: prod.splits option.splits)

lemma CompositeField_loop_append:
  "list_all (\<lambda>p. 0 \<le> fst p) pre \<Longrightarrow>
   CompositeField_loop py parse order endian rfs accum msg (pre @ rest) bts =
     and_then (CompositeField_loop py parse order endian rfs accum msg pre bts)
       (CompositeField_loop py parse order endian rfs accum msg rest
          (drop_bit (nat (sum_list (map fst pre))) bts))"
proof (induction pre arbitrary: bts)
  case Nil
  show ?case
    by (rule ext) (simp add: and_then_def split: prod.splits option.splits)
next
  case (Cons p pre)
  obtain nbits f where p: "p = (nbits, f)" by (cases p)
  with Cons.prems have nbits: "0 \<le> nbits" and pre: "list_all (\<lambda>p. 0 \<le> fst p) pre"
    by simp_all
  from pre have sum: "0 \<le> sum_list (map fst pre)"
    by (induction pre) auto
  have shift: "drop_bit (nat (sum_list (map fst pre))) (drop_bit (nat nbits) bts) =
      drop_bit (nat (sum_list (map fst (p # pre)))) bts"
    using nbits sum p by (simp add: drop_bit_drop_bit nat_add_distrib add.commute)
  show ?case
    using nbits Cons.IH [OF pre] shift
    by (simp add: p py_rshift_def and_then_raise and_then_assoc split: sum.splits)
qed

lemma CompositeField_loop_zero:
  "lshift_error py 0 = None \<Longrightarrow>
   CompositeField_loop py parse order endian rfs accum msg rest 0 =
     zero_filled py parse endian rfs accum msg rest"
proof (induction rest)
  case Nil
  show ?case by simp
next
  case (Cons p rest)
  obtain nbits f where p: "p = (nbits, f)" by (cases p)
  have bytes: "to_bytes 0 (max ((nbits + 7) div 8) (int sz)) order =
      Inr (replicate (nat (max ((nbits + 7) div 8) (int sz))) 0)" for sz
    by (rule to_bytes_zero) simp
  show ?case
    using Cons
    by (simp add: p py_lshift_one_def py_rshift_def bytes split: sum.splits)
qed

text \<open>
  Claim C7, amended. The decode of a composite field does not compare the declared bit
  widths with the length of the buffer and raises nothing on their account. When the
  components split into a first part, of widths that are not negative and sum to at
  least the bits of the buffer, and the rest, the decode runs the loop over the first
  part from the integer of the buffer and then decodes every component of the rest from
  a buffer of \<open>max(ceil(bits/8), size)\<close> zero bytes.
\<close>

theorem composite_beyond_buffer:
  "byteorder_of endian = Inr order \<and> c_components c = pre @ rest \<and>
   list_all (\<lambda>p. 0 \<le> fst p) pre \<and> 8 * int (length data) \<le> sum_list (map fst pre) \<and>
   lshift_error py 0 = None \<longrightarrow>
   CompositeField_parse py parse c data count endian rfs accum msg =
     and_then
       (CompositeField_loop py parse order endian rfs accum msg pre (from_bytes data order))
       (zero_filled py parse endian rfs accum msg rest)"
proof
  assume a: "byteorder_of endian = Inr order \<and> c_components c = pre @ rest \<and>
   list_all (\<lambda>p. 0 \<le> fst p) pre \<and> 8 * int (length data) \<le> sum_list (map fst pre) \<and>
   lshift_error py 0 = None"
  then have "8 * length data \<le> nat (sum_list (map fst pre))" by linarith
  then have zero: "drop_bit (nat (sum_list (map fst pre))) (from_bytes data order) = 0"
    by (rule from_bytes_consumed)
  have "CompositeField_parse py parse c data count endian rfs accum msg =
      CompositeField_loop py parse order endian rfs accum msg (pre @ rest) (from_bytes data order)"
    using a by (simp add: CompositeField_parse_def)
  also have "\<dots> =
      and_then
        (CompositeField_loop py parse order endian rfs accum msg pre (from_bytes data order))
        (CompositeField_loop py parse order endian rfs accum msg rest 0)"
    using a zero by (simp add: CompositeField_loop_append)
  also have "CompositeField_loop py parse order endian rfs accum msg rest 0 =
      zero_filled py parse endian rfs accum msg rest"
    using a by (simp add: CompositeField_loop_zero)
  finally show "CompositeField_parse py parse c data count endian rfs accum msg =
     and_then
       (CompositeField_loop py parse order endian rfs accum msg pre (from_bytes data order))
       (zero_filled py parse endian rfs accum msg rest)" .
qed

theorem composite_beyond_buffer_witness:
  "CompositeField_parse exact_python (field_parse exact_python 0) composite_wide [0x15] 1 0
      Map.empty plus_1000 msg_ab world0 =
     ([(VStr ''a'', (Some [VInt 21], VNone)), (VStr ''b'', (Some [VInt 0], VNone))], None, world0)"
proof -
  let ?a = "ScaledField_init (VStr ''a'') VNone VNone VNone VNone"
  let ?b = "ScaledField_init (VStr ''b'') VNone VNone VNone VNone"
  have "CompositeField_parse exact_python (field_parse exact_python 0) composite_wide [0x15] 1 0
      Map.empty plus_1000 msg_ab =
     and_then
       (CompositeField_loop exact_python (field_parse exact_python 0) Little 0 Map.empty plus_1000
          msg_ab [(8, ?a)] (from_bytes [0x15] Little))
       (zero_filled exact_python (field_parse exact_python 0) 0 Map.empty plus_1000 msg_ab [(8, ?b)])"
    using composite_beyond_buffer [where py = exact_python and endian = 0 and order = Little
        and c = composite_wide and pre = "[(8, ?a)]" and rest = "[(8, ?b)]" and data = "[0x15]"
        and parse = "field_parse exact_python 0" and count = 1 and rfs = Map.empty
        and accum = plus_1000 and msg = msg_ab]
    by (simp add: byteorder_of_def composite_wide_def exact_python_def)
  then show ?thesis
    by (simp add: parse_eval)
qed

section \<open>DelegateField\<close>

lemma py_truediv_errors:
  "py_truediv py a b = Inl e \<Longrightarrow> e = ZeroDivisionError \<or> e = TypeError \<or> e = OverflowError"
  by (cases "(py, a, b)" rule: py_truediv.cases)
     (auto simp: float_div_def split: option.splits if_splits)

lemma py_sub_errors:
  "py_sub py a b = Inl e \<Longrightarrow> e = TypeError \<or> e = OverflowError"
  by (cases "(py, a, b)" rule: py_sub.cases) (auto split: option.splits)

lemma scale_value_errors:
  "scale_value py f v = Inl e \<Longrightarrow> e = ZeroDivisionError \<or> e = TypeError \<or> e = OverflowError"
  using py_truediv_errors py_sub_errors
  by (fastforce simp: scale_value_def split: sum.splits)

lemma collect_errors:
  "collect (map g vals) = Inl e \<Longrightarrow> \<exists>v. g v = Inl e"
proof (induction vals)
  case Nil
  then show ?case by simp
next
  case (Cons v vals)
  then show ?case
    by (cases "g v") (auto split: sum.splits)
qed

lemma parse_and_scale_errors:
  assumes "parse_and_scale py f ty data count endian accum w = (ys, Some e, w')"
  shows "e = ZeroDivisionError \<or> e = TypeError \<or> e = OverflowError"
proof -
  from assms obtain vals where "collect (map (scale_value py f) vals) = Inl e"
    by (auto simp: parse_and_scale_def split: option.splits sum.splits if_splits prod.splits)
  then obtain v where "scale_value py f v = Inl e"
    using collect_errors by blast
  then show ?thesis by (rule scale_value_errors)
qed

lemma scale_21_by_2f:
  "py_truediv exact_python (VInt 21) (VFloat (Finite 2)) = Inr (VFloat (Finite (21 / 2)))"
  "py_sub exact_python (VFloat (Finite (21 / 2))) (VInt 0) = Inr (VFloat (Finite (21 / 2)))"
  by (simp_all add: exact_python_def exact_sub_def exact_div_def float_div_def)

lemma field_parse_2: "field_parse py 2 = field_parse py (Suc (Suc 0))"
  by (simp only: numeral_2_eq_2)

text \<open>
  Claim C6, as stated, fails where the resolved field is a \<^verbatim>\<open>DynamicField\<close>. That class
  extends \<^verbatim>\<open>RowField\<close>, so \<^verbatim>\<open>isinstance(delegate, RowField)\<close> holds for it: a scaled
  delegate raises nothing and scales the values decoded with the dynamic field's own
  type, and an unscaled delegate does not forward the call (forwarded, the call would
  resolve to the override \<^verbatim>\<open>X\<close> here) but decodes under its own name.
\<close>

theorem delegate_dynamic_is_scaled:
  "DelegateField_parse exact_python (field_parse exact_python 2) (ScaledField_init (VStr ''d'') VNone (VFloat (Finite 2)) VNone VNone)
      [0x15] 1 0 refs_A plus_1000 msg_XYd world0 =
     ([(VStr ''d'', (Some [VFloat (Finite (21 / 2))], VNone))], None, world0) \<and>
   DelegateField_parse exact_python (field_parse exact_python 2) (ScaledField_init (VStr ''d'') VNone VNone VNone VNone)
      [0x15] 1 0 refs_A plus_1000 msg_XYd world0 =
     ([(VStr ''d'', (Some [VInt 21], VNone))], None, world0) \<and>
   field_parse exact_python 2 (FDynamic (dynamic_XY [VStr ''A'', VStr ''B''])) [0x15] 1 0 refs_A plus_1000
      msg_XYd world0 =
     ([(VStr ''X'', (Some [VInt 21], VNone))], None, world0)"
  by (simp add: DelegateField_parse_def msg_XYd_def msg_XY_def dynamic_XY_def plain_field_def
      ScaledField_init_def Let_def parse_and_scale_def uint8_def scale_value_def exact_python_def
      exact_div_def exact_sub_def float_div_def world0_def DynamicField_parse_def refs_A_def table_XY_def key_eq_def
      TypedField_parse_def field_parse_2)

text \<open>
  Claim C6, amended. With the field that the message context resolves by name:
  when it is an instance of \<^verbatim>\<open>RowField\<close> (a plain \<^verbatim>\<open>RowField\<close> or a \<^verbatim>\<open>DynamicField\<close>),
  decoding uses that field's resolved type while applying the delegate's own scale and
  offset, and the configuration error is not raised; when it is not (a composite, or a
  typed field that is no \<^verbatim>\<open>RowField\<close>) and the delegate is scaled, the configuration
  error is raised and nothing is yielded; when it is not and the delegate is not
  scaled, the call is forwarded verbatim to the resolved field and its outcome is the
  delegate's.
\<close>

theorem delegate_parse_cases:
  "msg (name f) = Inr delegate \<longrightarrow>
     ((is_FRow delegate \<or> is_FDynamic delegate) \<and> field_type_attr delegate = Inr ty \<longrightarrow>
        DelegateField_parse py parse f data count endian rfs accum msg =
          parse_and_scale py f ty data count endian accum \<and>
        fst (snd (DelegateField_parse py parse f data count endian rfs accum msg w)) \<noteq>
          Some config_error) \<and>
     ((is_FTyped delegate \<or> is_FComposite delegate) \<and> is_scaled f \<longrightarrow>
        DelegateField_parse py parse f data count endian rfs accum msg w =
          ([], Some config_error, w)) \<and>
     ((is_FTyped delegate \<or> is_FComposite delegate) \<and> \<not> is_scaled f \<longrightarrow>
        DelegateField_parse py parse f data count endian rfs accum msg =
          parse delegate data count endian rfs accum msg)"
proof (intro impI conjI)
  assume m: "msg (name f) = Inr delegate"
  {
    assume a: "(is_FRow delegate \<or> is_FDynamic delegate) \<and> field_type_attr delegate = Inr ty"
    then show eq: "DelegateField_parse py parse f data count endian rfs accum msg =
          parse_and_scale py f ty data count endian accum"
      using m by (cases delegate) (auto simp: DelegateField_parse_def)
    obtain ys r w' where res: "parse_and_scale py f ty data count endian accum w = (ys, r, w')"
      by (cases "parse_and_scale py f ty data count endian accum w") auto
    have "r \<noteq> Some config_error"
    proof
      assume "r = Some config_error"
      with res parse_and_scale_errors [of py f ty data count endian accum w ys config_error w']
      show False by (simp add: config_error_def)
    qed
    with eq res
    show "fst (snd (DelegateField_parse py parse f data count endian rfs accum msg w)) \<noteq>
          Some config_error"
      by simp
  }
  {
    assume "(is_FTyped delegate \<or> is_FComposite delegate) \<and> is_scaled f"
    then show "DelegateField_parse py parse f data count endian rfs accum msg w =
          ([], Some config_error, w)"
      using m by (cases delegate) (auto simp: DelegateField_parse_def raise_def config_error_def)
  }
  {
    assume "(is_FTyped delegate \<or> is_FComposite delegate) \<and> \<not> is_scaled f"
    then show "DelegateField_parse py parse f data count endian rfs accum msg =
          parse delegate data count endian rfs accum msg"
      using m by (cases delegate) (auto simp: DelegateField_parse_def)
  }
qed

theorem delegate_parse_cases_witness:
  "DelegateField_parse exact_python (field_parse exact_python 1) (ScaledField_init (VStr ''a'') VNone (VFloat (Finite 2)) VNone VNone)
      [0x15] 1 0 Map.empty plus_1000 msg_abc world0 =
     ([(VStr ''a'', (Some [VFloat (Finite (21 / 2))], VNone))], None, world0) \<and>
   DelegateField_parse exact_python (field_parse exact_python 1) (ScaledField_init (VStr ''c'') VNone (VFloat (Finite 2)) VNone VNone)
      [0x15] 1 0 Map.empty plus_1000 msg_abc world0 =
     ([], Some config_error, world0) \<and>
   DelegateField_parse exact_python (field_parse exact_python 1) (ScaledField_init (VStr ''c'') VNone VNone VNone VNone)
      [0x15] 1 0 Map.empty plus_1000 msg_abc world0 =
     field_parse exact_python 1 (FComposite composite_ab) [0x15] 1 0 Map.empty plus_1000 msg_abc world0"
proof (intro conjI)
  show "DelegateField_parse exact_python (field_parse exact_python 1) (ScaledField_init (VStr ''a'') VNone (VFloat (Finite 2)) VNone VNone)
      [0x15] 1 0 Map.empty plus_1000 msg_abc world0 =
     ([(VStr ''a'', (Some [VFloat (Finite (21 / 2))], VNone))], None, world0)"
    using delegate_parse_cases [where py = exact_python and msg = msg_abc
        and f = "ScaledField_init (VStr ''a'') VNone (VFloat (Finite 2)) VNone VNone"
        and delegate = "FRow (plain_field ''a'' uint8)" and ty = uint8 and parse = "field_parse exact_python 1"
        and data = "[0x15]" and count = 1 and endian = 0 and rfs = Map.empty
        and accum = plus_1000 and w = world0]
    by (simp del: py_truediv.simps py_sub.simps add: msg_abc_def msg_ab_def ScaledField_init_def Let_def plain_field_def
        parse_and_scale_def uint8_def scale_value_def scale_21_by_2f)
  show "DelegateField_parse exact_python (field_parse exact_python 1) (ScaledField_init (VStr ''c'') VNone (VFloat (Finite 2)) VNone VNone)
      [0x15] 1 0 Map.empty plus_1000 msg_abc world0 =
     ([], Some config_error, world0)"
    using delegate_parse_cases [where py = exact_python and msg = msg_abc
        and f = "ScaledField_init (VStr ''c'') VNone (VFloat (Finite 2)) VNone VNone"
        and delegate = "FComposite composite_ab" and ty = uint8 and parse = "field_parse exact_python 1"
        and data = "[0x15]" and count = 1 and endian = 0 and rfs = Map.empty
        and accum = plus_1000 and w = world0]
    by (simp add: msg_abc_def ScaledField_init_def Let_def)
  show "DelegateField_parse exact_python (field_parse exact_python 1) (ScaledField_init (VStr ''c'') VNone VNone VNone VNone)
      [0x15] 1 0 Map.empty plus_1000 msg_abc world0 =
     field_parse exact_python 1 (FComposite composite_ab) [0x15] 1 0 Map.empty plus_1000 msg_abc world0"
    using delegate_parse_cases [where py = exact_python and msg = msg_abc
        and f = "ScaledField_init (VStr ''c'') VNone VNone VNone VNone"
        and delegate = "FComposite composite_ab" and ty = uint8 and parse = "field_parse exact_python 1"
        and data = "[0x15]" and count = 1 and endian = 0 and rfs = Map.empty
        and accum = plus_1000 and w = world0]
    by (simp add: msg_abc_def ScaledField_init_def Let_def)
qed

section \<open>DynamicField\<close>

lemma DynamicField_init_rows:
  "DynamicField_init exact_python iter_order [] row_d [Some row_X, Some row_Y] all_uint8 =
     ([], Inr (dynamic_of_rows iter_order))"
  by (simp add: DynamicField_init_def RowField_init_def TypedField_init_def single_int_def
      row_d_def row_X_def row_Y_def blank_row_def all_uint8_def rows_lookahead_def
      Zip_zip_def Zip_split_def zip_len_def gen_item_def strip_def is_space_def enumerate_eq_zip
      register_def key_eq_def set_add_def dynamic_of_rows_def Let_def)

lemmas dynamic_eval = DynamicField_parse_def TypedField_parse_def parse_and_scale_def
  msg_XY_def plain_field_def ScaledField_init_def Let_def uint8_def world0_def key_eq_def
  field_parse_2

text \<open>
  Claim C3, as stated, fails: the tracked names are kept in a \<^verbatim>\<open>set\<close>, whose iterator
  follows the hashes of the names and not their declaration. With the rows declaring
  \<^verbatim>\<open>A\<close> before \<^verbatim>\<open>B\<close>, a set that iterates \<^verbatim>\<open>B\<close> first, and both names in the references
  map, the decode selects \<^verbatim>\<open>Y\<close>; the declaration order would select \<^verbatim>\<open>X\<close>, as a set that
  iterates \<^verbatim>\<open>A\<close> first does.
\<close>

theorem dynamic_order_is_not_declaration_order:
  "DynamicField_init exact_python rev [] row_d [Some row_X, Some row_Y] all_uint8 =
     ([], Inr (dynamic_of_rows rev)) \<and>
   field_parse exact_python 2 (FDynamic (dynamic_of_rows rev)) [0x15] 1 0 refs_AB plus_1000 msg_XY world0 =
     ([(VStr ''Y'', (Some [VInt 21], VNone))], None, world0) \<and>
   field_parse exact_python 2 (FDynamic (dynamic_of_rows id)) [0x15] 1 0 refs_AB plus_1000 msg_XY world0 =
     ([(VStr ''X'', (Some [VInt 21], VNone))], None, world0)"
proof (intro conjI)
  show "DynamicField_init exact_python rev [] row_d [Some row_X, Some row_Y] all_uint8 =
     ([], Inr (dynamic_of_rows rev))"
    by (rule DynamicField_init_rows)
  show "field_parse exact_python 2 (FDynamic (dynamic_of_rows rev)) [0x15] 1 0 refs_AB plus_1000 msg_XY world0 =
     ([(VStr ''Y'', (Some [VInt 21], VNone))], None, world0)"
    by (simp add: dynamic_eval dynamic_of_rows_def refs_AB_def)
  show "field_parse exact_python 2 (FDynamic (dynamic_of_rows id)) [0x15] 1 0 refs_AB plus_1000 msg_XY world0 =
     ([(VStr ''X'', (Some [VInt 21], VNone))], None, world0)"
    by (simp add: dynamic_eval dynamic_of_rows_def refs_AB_def)
qed

lemma DynamicField_loop_skip:
  "\<forall>n \<in> set pre. passed_over d rfs n \<Longrightarrow>
   DynamicField_loop py parse d data count endian rfs accum msg (pre @ rest) =
   DynamicField_loop py parse d data count endian rfs accum msg rest"
proof (induction pre)
  case Nil
  show ?case by simp
next
  case (Cons n pre)
  then have "passed_over d rfs n" by simp
  then have "DynamicField_loop py parse d data count endian rfs accum msg (n # (pre @ rest)) =
      DynamicField_loop py parse d data count endian rfs accum msg (pre @ rest)"
    by (auto simp: passed_over_def split: option.splits list.splits)
  with Cons show ?case by simp
qed

text \<open>
  Claim C3, amended. The decode of a dynamic field is a function of its arguments, and
  it is first-match-wins over the tracked reference names in the order in which the set
  \<^verbatim>\<open>references\<close> iterates, which need not be their declaration order: when every name
  before \<open>nm\<close> in that order is passed over (it is absent from the references map, or its
  first decoded value has no entry in the table), and \<open>nm\<close> is in the references map with a
  first value \<open>v\<close> such that \<open>(nm, v)\<close> is in the resolution table, the decode delegates
  entirely to the override field that the message context gives for the table's entry
  and checks no further name. In the example of the specification (references map with
  \<^verbatim>\<open>A\<close> alone) \<^verbatim>\<open>X\<close> is selected in either order.
\<close>

theorem dynamic_first_match:
  "references d = pre @ nm # post \<and> (\<forall>n \<in> set pre. passed_over d rfs n) \<and>
   rfs nm = Some (Some (v # vs), un) \<and> dict_get (dynamic_lookup d) (nm, v) = Some fname \<longrightarrow>
   DynamicField_parse py parse d data count endian rfs accum msg =
     (case msg fname of
        Inl e \<Rightarrow> raise e
      | Inr f \<Rightarrow> parse f data count endian rfs accum msg)"
proof
  assume a: "references d = pre @ nm # post \<and> (\<forall>n \<in> set pre. passed_over d rfs n) \<and>
   rfs nm = Some (Some (v # vs), un) \<and> dict_get (dynamic_lookup d) (nm, v) = Some fname"
  then have "DynamicField_parse py parse d data count endian rfs accum msg =
      DynamicField_loop py parse d data count endian rfs accum msg (nm # post)"
    by (simp add: DynamicField_parse_def DynamicField_loop_skip)
  with a show "DynamicField_parse py parse d data count endian rfs accum msg =
     (case msg fname of
        Inl e \<Rightarrow> raise e
      | Inr f \<Rightarrow> parse f data count endian rfs accum msg)"
    by simp
qed

theorem dynamic_first_match_witness:
  "DynamicField_parse exact_python (field_parse exact_python 1) (dynamic_XY [VStr ''A'', VStr ''B'']) [0x15] 1 0 refs_A
      plus_1000 msg_XY =
     field_parse exact_python 1 (FRow (plain_field ''X'' uint8)) [0x15] 1 0 refs_A plus_1000 msg_XY \<and>
   DynamicField_parse exact_python (field_parse exact_python 1) (dynamic_XY [VStr ''B'', VStr ''A'']) [0x15] 1 0 refs_A
      plus_1000 msg_XY =
     field_parse exact_python 1 (FRow (plain_field ''X'' uint8)) [0x15] 1 0 refs_A plus_1000 msg_XY"
proof (intro conjI)
  show "DynamicField_parse exact_python (field_parse exact_python 1) (dynamic_XY [VStr ''A'', VStr ''B'']) [0x15] 1 0 refs_A
      plus_1000 msg_XY =
     field_parse exact_python 1 (FRow (plain_field ''X'' uint8)) [0x15] 1 0 refs_A plus_1000 msg_XY"
    using dynamic_first_match [where py = exact_python and d = "dynamic_XY [VStr ''A'', VStr ''B'']" and pre = "[]"
        and nm = "VStr ''A''" and post = "[VStr ''B'']" and rfs = refs_A and v = "VInt 1"
        and vs = "[]" and un = VNone and fname = "VStr ''X''" and parse = "field_parse exact_python 1"
        and data = "[0x15]" and count = 1 and endian = 0 and accum = plus_1000 and msg = msg_XY]
    by (simp add: dynamic_XY_def refs_A_def table_XY_def key_eq_def msg_XY_def)
  show "DynamicField_parse exact_python (field_parse exact_python 1) (dynamic_XY [VStr ''B'', VStr ''A'']) [0x15] 1 0 refs_A
      plus_1000 msg_XY =
     field_parse exact_python 1 (FRow (plain_field ''X'' uint8)) [0x15] 1 0 refs_A plus_1000 msg_XY"
    using dynamic_first_match [where py = exact_python and d = "dynamic_XY [VStr ''B'', VStr ''A'']" and pre = "[VStr ''B'']"
        and nm = "VStr ''A''" and post = "[]" and rfs = refs_A and v = "VInt 1"
        and vs = "[]" and un = VNone and fname = "VStr ''X''" and parse = "field_parse exact_python 1"
        and data = "[0x15]" and count = 1 and endian = 0 and accum = plus_1000 and msg = msg_XY]
    by (simp add: dynamic_XY_def refs_A_def table_XY_def key_eq_def msg_XY_def passed_over_def)
qed

lemma parse_and_scale_warned:
  "parse_and_scale py f ty data count endian accum (w\<lparr>warned := x\<rparr>) =
     (case parse_and_scale py f ty data count endian accum w of
        (ys, r, w') \<Rightarrow> (ys, r, w'\<lparr>warned := x\<rparr>))"
  by (auto simp: parse_and_scale_def split: option.splits sum.splits prod.splits)

lemma DynamicField_init_typed:
  "DynamicField_init py iter_order lg row rows tys = (lg', Inr d) \<Longrightarrow>
   RowField_init py lg row tys = (lg', Inr (typed d))"
  by (auto simp: DynamicField_init_def split: prod.splits sum.splits)

text \<open>
  Where the loop passes over every tracked name, the decode of a dynamic field logs the
  resolution-failure diagnostic and otherwise is the decode of the plain \<^verbatim>\<open>RowField\<close> it
  carries: the same entries, the same exception if any, the same accumulator state.
\<close>

lemma DynamicField_parse_fallback:
  assumes "\<forall>nm \<in> set (references d). passed_over d rfs nm"
  shows "field_parse py (Suc depth) (FDynamic d) data count endian rfs accum msg w =
        (case field_parse py (Suc depth') (FRow (typed d)) data count endian rfs accum msg w of
           (ys, r, w') \<Rightarrow>
             (ys, r, w'\<lparr>warned := warned w @ [CouldNotResolve (name (scaled (typed d)))]\<rparr>))"
proof -
  have "DynamicField_loop py (field_parse py depth) d data count endian rfs accum msg
          (references d @ []) =
        DynamicField_loop py (field_parse py depth) d data count endian rfs accum msg []"
    using assms by (rule DynamicField_loop_skip)
  then show ?thesis
    by (simp add: DynamicField_parse_def TypedField_parse_def parse_and_scale_warned)
qed

text \<open>
  Claim C5 fails on the code. In the references map \<^verbatim>\<open>{"A": (None, None)}\<close> no tracked
  name of the dynamic field resolves: \<^verbatim>\<open>A\<close> is present with absent values, which have no
  entry in the table, and \<^verbatim>\<open>B\<close> is absent. The claim expects the diagnostic and the output
  of the plain \<^verbatim>\<open>RowField\<close> of the same row, which is \<^verbatim>\<open>d = 21\<close>; the decode raises
  \<^verbatim>\<open>TypeError\<close> instead, from \<^verbatim>\<open>references[name][0][0]\<close>, yields nothing and logs nothing.
\<close>

theorem dynamic_absent_reference_raises:
  "DynamicField_init exact_python id [] row_d [Some row_X, Some row_Y] all_uint8 =
     ([], Inr (dynamic_of_rows id)) \<and>
   RowField_init exact_python [] row_d all_uint8 = ([], Inr (typed (dynamic_of_rows id))) \<and>
   list_all (unresolved (dynamic_of_rows id) refs_absent) (references (dynamic_of_rows id)) \<and>
   field_parse exact_python 1 (FDynamic (dynamic_of_rows id)) [0x15] 1 0 refs_absent plus_1000
      msg_XY world0 =
     ([], Some TypeError, world0) \<and>
   field_parse exact_python 1 (FRow (typed (dynamic_of_rows id))) [0x15] 1 0 refs_absent plus_1000
      msg_XY world0 =
     ([(VStr ''d'', (Some [VInt 21], VNone))], None, world0)"
proof (intro conjI)
  show init: "DynamicField_init exact_python id [] row_d [Some row_X, Some row_Y] all_uint8 =
     ([], Inr (dynamic_of_rows id))"
    by (rule DynamicField_init_rows)
  show "RowField_init exact_python [] row_d all_uint8 = ([], Inr (typed (dynamic_of_rows id)))"
    using init by (rule DynamicField_init_typed)
  show "list_all (unresolved (dynamic_of_rows id) refs_absent) (references (dynamic_of_rows id))"
    by (simp add: dynamic_of_rows_def unresolved_def refs_absent_def)
  show "field_parse exact_python 1 (FDynamic (dynamic_of_rows id)) [0x15] 1 0 refs_absent plus_1000
      msg_XY world0 =
     ([], Some TypeError, world0)"
    by (simp add: DynamicField_parse_def dynamic_of_rows_def refs_absent_def raise_def)
  show "field_parse exact_python 1 (FRow (typed (dynamic_of_rows id))) [0x15] 1 0 refs_absent plus_1000
      msg_XY world0 =
     ([(VStr ''d'', (Some [VInt 21], VNone))], None, world0)"
    by (simp add: dynamic_of_rows_def TypedField_parse_def parse_and_scale_def
        ScaledField_init_def Let_def uint8_def world0_def)
qed

section \<open>The field factory\<close>

lemma lookahead_loop_takeWhile:
  "lookahead_loop py rows st =
     foldl (\<lambda>st row. foldl (register (field_name row)) st (Zip_zip py [ref_name row, ref_value row]))
       st (map the (takeWhile override_row rows))"
proof (induction rows arbitrary: st)
  case Nil
  show ?case by simp
next
  case (Cons r rows)
  show ?case
  proof (cases r)
    case None
    then show ?thesis by (simp add: override_row_def)
  next
    case (Some row)
    with Cons show ?thesis by (simp add: override_row_def)
  qed
qed

lemma DynamicField_init_table:
  "DynamicField_init py iter_order lg row rows tys = (lg', Inr d) \<Longrightarrow>
   dynamic_lookup d = fst (registered py (map the (takeWhile override_row rows)))"
  by (auto simp: DynamicField_init_def rows_lookahead_def registered_def lookahead_loop_takeWhile
      split: prod.splits sum.splits)

lemma MessageField_rows:
  "MessageField exact_python id [] row_d [Some row_X, Some row_Y, Some row_d, Some row_X] all_uint8 =
     ([], Inr (FDynamic (dynamic_of_rows id)))"
  by (simp add: MessageField_def rows_peek_def DynamicField_init_def RowField_init_def
      TypedField_init_def single_int_def
      row_d_def row_X_def row_Y_def blank_row_def all_uint8_def rows_lookahead_def
      Zip_zip_def Zip_split_def zip_len_def gen_item_def strip_def is_space_def enumerate_eq_zip
      register_def key_eq_def set_add_def dynamic_of_rows_def Let_def)

text \<open>
  Claim C8. For every row and lookahead cursor, the factory constructs a
  \<^verbatim>\<open>CompositeField\<close> exactly when the row's components are non-empty; otherwise a
  \<^verbatim>\<open>DynamicField\<close> exactly when the peeked next row is an override row (a field name and
  no field number); otherwise a plain \<^verbatim>\<open>RowField\<close>. The first three parts name the
  constructor that is called, also where it raises; the last reads the class off the
  field that was built. The resolution table of the \<^verbatim>\<open>DynamicField\<close> is the one registered
  from exactly the contiguous override rows that follow, at least one, up to the first
  row that has a field number, has no field name or is blank.
\<close>

theorem field_factory:
  "(truthy (components row) \<longrightarrow>
      MessageField py iter_order lg row rows tys =
        (case CompositeField_init py lg row of (lg', r) \<Rightarrow> (lg', map_sum id FComposite r))) \<and>
   (\<not> truthy (components row) \<and> override_row (rows_peek rows) \<longrightarrow>
      MessageField py iter_order lg row rows tys =
        (case DynamicField_init py iter_order lg row rows tys of
           (lg', r) \<Rightarrow> (lg', map_sum id FDynamic r))) \<and>
   (\<not> truthy (components row) \<and> \<not> override_row (rows_peek rows) \<longrightarrow>
      MessageField py iter_order lg row rows tys =
        (case RowField_init py lg row tys of (lg', r) \<Rightarrow> (lg', map_sum id FRow r))) \<and>
   (MessageField py iter_order lg row rows tys = (lg', Inr fld) \<longrightarrow>
      is_FComposite fld = truthy (components row) \<and>
      is_FDynamic fld = (\<not> truthy (components row) \<and> override_row (rows_peek rows)) \<and>
      is_FRow fld = (\<not> truthy (components row) \<and> \<not> override_row (rows_peek rows)) \<and>
      (\<forall>d. fld = FDynamic d \<longrightarrow>
         dynamic_lookup d = fst (registered py (map the (takeWhile override_row rows))) \<and>
         takeWhile override_row rows \<noteq> []))"
proof (intro conjI impI)
  show "MessageField py iter_order lg row rows tys =
        (case CompositeField_init py lg row of (lg', r) \<Rightarrow> (lg', map_sum id FComposite r))"
    if "truthy (components row)"
    using that by (simp add: MessageField_def)
  show dyn: "MessageField py iter_order lg row rows tys =
        (case DynamicField_init py iter_order lg row rows tys of
           (lg', r) \<Rightarrow> (lg', map_sum id FDynamic r))"
    if "\<not> truthy (components row) \<and> override_row (rows_peek rows)"
    using that by (auto simp: MessageField_def override_row_def split: option.splits)
  show "MessageField py iter_order lg row rows tys =
        (case RowField_init py lg row tys of (lg', r) \<Rightarrow> (lg', map_sum id FRow r))"
    if "\<not> truthy (components row) \<and> \<not> override_row (rows_peek rows)"
    using that by (auto simp: MessageField_def override_row_def split: option.splits)
  assume m: "MessageField py iter_order lg row rows tys = (lg', Inr fld)"
  show "is_FComposite fld = truthy (components row)"
    using m by (auto simp: MessageField_def map_sum_def split: if_splits option.splits prod.splits sum.splits)
  show "is_FDynamic fld = (\<not> truthy (components row) \<and> override_row (rows_peek rows))"
    using m
    by (auto simp: MessageField_def map_sum_def override_row_def
        split: if_splits option.splits prod.splits sum.splits)
  show "is_FRow fld = (\<not> truthy (components row) \<and> \<not> override_row (rows_peek rows))"
    using m
    by (auto simp: MessageField_def map_sum_def override_row_def
        split: if_splits option.splits prod.splits sum.splits)
  show "\<forall>d. fld = FDynamic d \<longrightarrow>
         dynamic_lookup d = fst (registered py (map the (takeWhile override_row rows))) \<and>
         takeWhile override_row rows \<noteq> []"
  proof (intro allI impI)
    fix d
    assume fld: "fld = FDynamic d"
    with m have init: "DynamicField_init py iter_order lg row rows tys = (lg', Inr d)"
      and peek: "override_row (rows_peek rows)"
      by (auto simp: MessageField_def map_sum_def override_row_def
          split: if_splits option.splits prod.splits sum.splits)
    from peek have "takeWhile override_row rows \<noteq> []"
      by (cases rows) (auto simp: rows_peek_def override_row_def)
    with init show "dynamic_lookup d = fst (registered py (map the (takeWhile override_row rows))) \<and>
         takeWhile override_row rows \<noteq> []"
      by (simp add: DynamicField_init_table)
  qed
qed

theorem field_factory_witness:
  "MessageField exact_python id [] row_d [Some row_X, Some row_Y, Some row_d, Some row_X] all_uint8 =
     ([], Inr (FDynamic (dynamic_of_rows id))) \<and>
   dynamic_lookup (dynamic_of_rows id) = fst (registered exact_python [row_X, row_Y]) \<and>
   snd (MessageField exact_python id [] row_ab [Some row_X] all_uint8) = Inr (FComposite composite_ab) \<and>
   (\<exists>t. snd (MessageField exact_python id [] row_d [Some row_d, Some row_X] all_uint8) = Inr (FRow t))"
proof (intro conjI)
  let ?rows = "[Some row_X, Some row_Y, Some row_d, Some row_X]"
  show m: "MessageField exact_python id [] row_d ?rows all_uint8 =
     ([], Inr (FDynamic (dynamic_of_rows id)))"
    by (rule MessageField_rows)
  have tw: "map the (takeWhile override_row ?rows) = [row_X, row_Y]"
    by (simp add: override_row_def row_X_def row_Y_def row_d_def blank_row_def)
  show "dynamic_lookup (dynamic_of_rows id) = fst (registered exact_python [row_X, row_Y])"
    using field_factory [where py = exact_python and iter_order = id and lg = "[]" and row = row_d
        and rows = ?rows and tys = all_uint8 and lg' = "[]" and fld = "FDynamic (dynamic_of_rows id)"]
      m tw
    by simp
  have "truthy (components row_ab)"
    by (simp add: row_ab_def blank_row_def)
  then show "snd (MessageField exact_python id [] row_ab [Some row_X] all_uint8) =
      Inr (FComposite composite_ab)"
    using field_factory [where py = exact_python and iter_order = id and lg = "[]" and row = row_ab
        and rows = "[Some row_X]" and tys = all_uint8]
    by (simp add: CompositeField_init_ab)
  have "\<not> truthy (components row_d) \<and> \<not> override_row (rows_peek [Some row_d, Some row_X])"
    by (simp add: row_d_def blank_row_def rows_peek_def override_row_def)
  then have "MessageField exact_python id [] row_d [Some row_d, Some row_X] all_uint8 =
        (case RowField_init exact_python [] row_d all_uint8 of (lg', r) \<Rightarrow> (lg', map_sum id FRow r))"
    using field_factory [where py = exact_python and iter_order = id and lg = "[]" and row = row_d
        and rows = "[Some row_d, Some row_X]" and tys = all_uint8]
    by blast
  moreover obtain lg' t where "RowField_init exact_python [] row_d all_uint8 = (lg', Inr t)"
    using DynamicField_init_typed [OF DynamicField_init_rows [of id]] by blast
  ultimately show "\<exists>t. snd (MessageField exact_python id [] row_d [Some row_d, Some row_X] all_uint8) =
      Inr (FRow t)"
    by simp
qed

end
